theory Spec2Isabelle
  imports Main
begin

section \<open>Data model\<close>

text \<open>
  A Python \<open>str\<close> is a sequence of Unicode code points, so it is modelled as a list of
  natural numbers; \<open>ustr\<close> turns an ASCII literal into such a string. Message codes,
  table tags and glyph names are plain ASCII and stay of type \<open>string\<close>.
\<close>

type_synonym pystr = "nat list"

definition ustr :: "string \<Rightarrow> pystr" where
  "ustr s = map of_char s"

text \<open>The exceptions a check can raise.\<close>

datatype py_error =
  KeyError | IndexError | AttributeError | ValueError | UnicodeDecodeError | ZeroDivisionError

text \<open>\<open>fontbakery.status\<close>.\<close>

datatype status = PASS | FAIL | WARN | ERROR | SKIP | INFO

text \<open>
  A result is a pair of a status and either a \<open>Message(code, text)\<close> or a bare string.
  The human text of a \<open>Message\<close> is a fixed format string; the model keeps the values that
  are interpolated into it (in the order of the source) instead of the rendered text.
\<close>

datatype arg = I int | S pystr | A string | L "arg list"

datatype message = Message string "arg list" | Text string

type_synonym result = "status \<times> message"

text \<open>
  A check written as a generator yields results one by one and may be ended by an
  exception: its outcome is the list of results yielded and the exception, if any.
\<close>

type_synonym gen = "result list \<times> py_error option"

text \<open>The statuses of the results that a check yields, in order.\<close>

definition statuses :: "gen \<Rightarrow> status list" where
  "statuses g = map fst (fst g)"

text \<open>
  A record of the \<open>name\<close> table. \<open>toUnicode\<close> is the result of the font library's
  \<open>NameRecord.toUnicode()\<close>: \<open>None\<close> when it raises \<open>UnicodeDecodeError\<close>.
\<close>

record name_record =
  platformID :: nat
  platEncID :: nat
  langID :: nat
  nameID :: nat
  toUnicode :: "pystr option"

record head_table =
  unitsPerEm :: nat

record glyph =
  isComposite :: bool
  numberOfContours :: int

record hhea_table =
  advanceWidthMax :: nat

text \<open>
  The PANOSE numbers of the \<open>OS/2\<close> table, with the fields that the checks read. The font
  library's Panose object has no attribute \<open>bSpacing\<close>: reading it raises
  \<open>AttributeError\<close>.
\<close>

record panose =
  bFamilyType :: nat
  bProportion :: nat

record post_table =
  isFixedPitch :: nat

text \<open>A CFF top dict: \<open>CharStrings\<close> maps a glyph name to the bytecode of its charstring.\<close>

record top_dict =
  CharStrings :: "(string \<times> nat list) list"

record cff_table =
  topDictIndex :: "top_dict list"

text \<open>\<open>bestCmap\<close> is the value of \<open>getBestCmap()\<close>: \<open>None\<close> without a Unicode subtable.\<close>

record cmap_table =
  bestCmap :: "(nat \<times> string) list option"

text \<open>
  A font exposes its tables by tag; a table that is absent is \<open>None\<close> and indexing it
  (\<open>ttFont[tag]\<close>) raises \<open>KeyError\<close>. Python dictionaries are association lists, read
  with \<open>map_of\<close>.
\<close>

record font =
  t_name :: "name_record list option"
  t_head :: "head_table option"
  t_glyf :: "(string \<times> glyph) list option"
  t_hhea :: "hhea_table option"
  t_hmtx :: "(string \<times> nat \<times> int) list option"
  t_OS2 :: "panose option"
  t_post :: "post_table option"
  t_CFF2 :: "cff_table option"
  t_CFF :: "cff_table option"
  t_cmap :: "cmap_table option"

text \<open>\<open>tag in ttFont\<close>.\<close>

definition has_table :: "font \<Rightarrow> string \<Rightarrow> bool" where
  "has_table ttFont tag =
     (if tag = ''name'' then t_name ttFont \<noteq> None
      else if tag = ''head'' then t_head ttFont \<noteq> None
      else if tag = ''glyf'' then t_glyf ttFont \<noteq> None
      else if tag = ''hhea'' then t_hhea ttFont \<noteq> None
      else if tag = ''hmtx'' then t_hmtx ttFont \<noteq> None
      else if tag = ''OS/2'' then t_OS2 ttFont \<noteq> None
      else if tag = ''post'' then t_post ttFont \<noteq> None
      else if tag = ''CFF2'' then t_CFF2 ttFont \<noteq> None
      else if tag = ''CFF '' then t_CFF ttFont \<noteq> None
      else if tag = ''cmap'' then t_cmap ttFont \<noteq> None
      else False)"

subsection \<open>Python built-ins\<close>

text \<open>The code points that \<open>str.strip()\<close> removes (those for which \<open>str.isspace\<close> holds).\<close>

definition py_isspace :: "nat \<Rightarrow> bool" where
  "py_isspace c \<longleftrightarrow>
     (0x09 \<le> c \<and> c \<le> 0x0D) \<or> (0x1C \<le> c \<and> c \<le> 0x20) \<or> c = 0x85 \<or> c = 0xA0 \<or>
     c = 0x1680 \<or> (0x2000 \<le> c \<and> c \<le> 0x200A) \<or> c = 0x2028 \<or> c = 0x2029 \<or>
     c = 0x202F \<or> c = 0x205F \<or> c = 0x3000"

definition py_strip :: "pystr \<Rightarrow> pystr" where
  "py_strip s = rev (dropWhile py_isspace (rev (dropWhile py_isspace s)))"

definition startswith :: "pystr \<Rightarrow> pystr \<Rightarrow> bool" where
  "startswith s p \<longleftrightarrow> take (length p) s = p"

text \<open>The decimal rendering of a number inside an f-string.\<close>

function str_nat :: "nat \<Rightarrow> string" where
  "str_nat n =
     (if n < 10 then [''0123456789'' ! n]
      else str_nat (n div 10) @ [''0123456789'' ! (n mod 10)])"
  by pat_completeness auto
termination
  by (relation "measure id") auto

declare str_nat.simps [simp del]

text \<open>Sequencing of two computations that may raise.\<close>

definition bind_err :: "py_error + 'a \<Rightarrow> ('a \<Rightarrow> py_error + 'b) \<Rightarrow> py_error + 'b" where
  "bind_err m k = (case m of Inl e \<Rightarrow> Inl e | Inr x \<Rightarrow> k x)"

subsection \<open>The font library and fontbakery's own helpers\<close>

text \<open>
  \<open>table__n_a_m_e.getName(nameID, platformID, platEncID, langID)\<close> of the font library:
  the first record of the table with these four identifiers, or \<open>None\<close>.
\<close>

definition getName :: "name_record list \<Rightarrow> nat \<Rightarrow> nat \<Rightarrow> nat \<Rightarrow> nat \<Rightarrow> name_record option" where
  "getName names nid pid eid lid =
     find (\<lambda>r. nameID r = nid \<and> platformID r = pid \<and> platEncID r = eid \<and> langID r = lid) names"

text \<open>
  Modelled from the spec: the enumerations \<open>NameID\<close>, \<open>PlatformID\<close>, \<open>WindowsEncodingID\<close>,
  \<open>WindowsLanguageID\<close>, \<open>PANOSE_Family_Type\<close>, \<open>PANOSE_Proportion\<close>, \<open>PANOSE_Spacing\<close> and
  \<open>IsFixedWidth\<close> of \<open>fontbakery.constants\<close> are not under src/. Their values are the
  OpenType ones that the spec's glossary (1 = Family Name, 4 = Full Name, 6 = PostScript
  Name), the comments of name.py (family names in nameIDs 1, 16 and 21; PANOSE proportion 9
  and spacing 3 for monospaced; isFixedPitch 0 for proportional) and the literals of
  adobefonts.py (platform 3, encoding 1, language 0x409) quote.
\<close>

definition FONT_FAMILY_NAME :: nat where "FONT_FAMILY_NAME = 1"
definition FONT_SUBFAMILY_NAME :: nat where "FONT_SUBFAMILY_NAME = 2"
definition FULL_FONT_NAME :: nat where "FULL_FONT_NAME = 4"
definition POSTSCRIPT_NAME :: nat where "POSTSCRIPT_NAME = 6"
definition TYPOGRAPHIC_FAMILY_NAME :: nat where "TYPOGRAPHIC_FAMILY_NAME = 16"
definition TYPOGRAPHIC_SUBFAMILY_NAME :: nat where "TYPOGRAPHIC_SUBFAMILY_NAME = 17"
definition WWS_FAMILY_NAME :: nat where "WWS_FAMILY_NAME = 21"
definition WINDOWS :: nat where "WINDOWS = 3"
definition UNICODE_BMP :: nat where "UNICODE_BMP = 1"
definition ENGLISH_USA :: nat where "ENGLISH_USA = 0x0409"
definition LATIN_TEXT :: nat where "LATIN_TEXT = 2"
definition LATIN_HAND_WRITTEN :: nat where "LATIN_HAND_WRITTEN = 3"
definition LATIN_SYMBOL :: nat where "LATIN_SYMBOL = 5"
definition PROPORTION_MONOSPACED :: nat where "PROPORTION_MONOSPACED = 9"
definition SPACING_MONOSPACED :: nat where "SPACING_MONOSPACED = 3"
definition NOT_MONOSPACED :: nat where "NOT_MONOSPACED = 0"

text \<open>
  Modelled from the spec: the condition \<open>has_name_table\<close> (shared_conditions, not under
  src/) is pre-computed by the framework from the font: whether it has a \<open>name\<close> table.
\<close>

definition has_name_table :: "font \<Rightarrow> bool" where
  "has_name_table ttFont = has_table ttFont ''name''"

text \<open>
  Modelled from the spec: \<open>get_name_entry_strings\<close> (fontbakery.utils, not under src/)
  gives the strings of the name records with the given nameID and, where they are given,
  platform, encoding and language, in the order of the table. Reading the table of a font
  without one raises \<open>KeyError\<close>, and a record that cannot be decoded raises
  \<open>UnicodeDecodeError\<close>.
\<close>

definition get_name_entries ::
  "name_record list \<Rightarrow> nat \<Rightarrow> nat option \<Rightarrow> nat option \<Rightarrow> nat option \<Rightarrow> name_record list" where
  "get_name_entries names nid pid eid lid =
     filter (\<lambda>entry. nameID entry = nid \<and>
                    (pid = None \<or> Some (platformID entry) = pid) \<and>
                    (eid = None \<or> Some (platEncID entry) = eid) \<and>
                    (lid = None \<or> Some (langID entry) = lid)) names"

fun decode_all :: "name_record list \<Rightarrow> py_error + pystr list" where
  "decode_all [] = Inr []"
| "decode_all (e # es) =
     (case toUnicode e of
        None \<Rightarrow> Inl UnicodeDecodeError
      | Some s \<Rightarrow> bind_err (decode_all es) (\<lambda>ss. Inr (s # ss)))"

definition get_name_entry_strings ::
  "font \<Rightarrow> nat \<Rightarrow> nat option \<Rightarrow> nat option \<Rightarrow> nat option \<Rightarrow> py_error + pystr list" where
  "get_name_entry_strings ttFont nid pid eid lid =
     (case t_name ttFont of
        None \<Rightarrow> Inl KeyError
      | Some names \<Rightarrow> decode_all (get_name_entries names nid pid eid lid))"

section \<open>adobefonts.py\<close>

subsection \<open>com.adobe.fonts/check/family/consistent_upm\<close>

text \<open>The loop that fills \<open>upm_set\<close>; \<open>ttFont["head"]\<close> raises when the table is absent.\<close>

fun collect_upm :: "font list \<Rightarrow> nat set \<Rightarrow> py_error + nat set" where
  "collect_upm [] upm_set = Inr upm_set"
| "collect_upm (ttFont # ttFonts) upm_set =
     (case t_head ttFont of
        None \<Rightarrow> Inl KeyError
      | Some h \<Rightarrow> collect_upm ttFonts (insert (unitsPerEm h) upm_set))"

definition com_adobe_fonts_check_family_consistent_upm :: "font list \<Rightarrow> gen" where
  "com_adobe_fonts_check_family_consistent_upm ttFonts =
     (case collect_upm ttFonts {} of
        Inl e \<Rightarrow> ([], Some e)
      | Inr upm_set \<Rightarrow>
          (if card upm_set > 1
           then [(FAIL, Message ''inconsistent-upem''
                          [L (map (\<lambda>u. I (int u)) (sorted_list_of_set upm_set))])]
           else [(PASS, Text ''Fonts have consistent units per em.'')],
           None))"

subsection \<open>com.adobe.fonts/check/find_empty_letters\<close>

definition quick_and_dirty_glyph_is_empty :: "font \<Rightarrow> string \<Rightarrow> py_error + bool" where
  "quick_and_dirty_glyph_is_empty ttFont glyph_name =
     (case t_glyf ttFont of
        Some glyf \<Rightarrow>
          (case map_of glyf glyph_name of
             None \<Rightarrow> Inl KeyError
           | Some glyph \<Rightarrow>
               Inr (if \<not> isComposite glyph then (if numberOfContours glyph = 0 then True else False)
                    else False))
      | None \<Rightarrow>
          bind_err
            (case t_CFF2 ttFont of
               Some cff2 \<Rightarrow>
                 (case topDictIndex cff2 of [] \<Rightarrow> Inl IndexError | td # _ \<Rightarrow> Inr td)
             | None \<Rightarrow>
                 (case t_CFF ttFont of
                    None \<Rightarrow> Inl KeyError
                  | Some cff \<Rightarrow>
                      (case topDictIndex cff of [] \<Rightarrow> Inl IndexError | td # _ \<Rightarrow> Inr td)))
            (\<lambda>top_dict.
               case map_of (CharStrings top_dict) glyph_name of
                 None \<Rightarrow> Inl KeyError
               | Some bytecode \<Rightarrow> Inr (if length bytecode \<le> 1 then True else False)))"

definition letter_categories :: "string set" where
  "letter_categories = {''Ll'', ''Lm'', ''Lo'', ''Lt'', ''Lu''}"

definition invisible_letters :: "nat set" where
  "invisible_letters = {0x115F, 0x1160, 0x3164, 0xFFA0}"

text \<open>
  The loop over \<open>cmap.items()\<close> with its two variables, followed by the final PASS or WARN.
  \<open>category\<close> stands for \<open>unicodedata.category\<close>; \<open>chr\<close> raises \<open>ValueError\<close> beyond
  U+10FFFF.
\<close>

fun find_empty_letters_loop ::
  "(nat \<Rightarrow> string) \<Rightarrow> nat set \<Rightarrow> font \<Rightarrow> (nat \<times> string) list \<Rightarrow> nat \<Rightarrow> bool \<Rightarrow> gen" where
  "find_empty_letters_loop category blank_ok_set ttFont [] num_blank_hangul_glyphs passed =
     (if passed then [(PASS, Text ''No empty glyphs for letters found.'')]
      else if num_blank_hangul_glyphs \<noteq> 0
           then [(WARN, Message ''empty-hangul-letter'' [I (int num_blank_hangul_glyphs)])]
           else [],
      None)"
| "find_empty_letters_loop category blank_ok_set ttFont ((unicode_val, glyph_name) # items)
       num_blank_hangul_glyphs passed =
     (if unicode_val > 0x10FFFF then ([], Some ValueError)
      else case quick_and_dirty_glyph_is_empty ttFont glyph_name of
        Inl e \<Rightarrow> ([], Some e)
      | Inr glyph_is_empty \<Rightarrow>
          (if glyph_is_empty \<and> unicode_val \<in> blank_ok_set
           then find_empty_letters_loop category blank_ok_set ttFont items
                  (num_blank_hangul_glyphs + 1) False
           else if glyph_is_empty \<and> category unicode_val \<in> letter_categories
                   \<and> unicode_val \<notin> invisible_letters
           then (let (rs, e) = find_empty_letters_loop category blank_ok_set ttFont items
                                 num_blank_hangul_glyphs False
                 in ((FAIL, Message ''empty-letter'' [I (int unicode_val), A glyph_name]) # rs, e))
           else find_empty_letters_loop category blank_ok_set ttFont items
                  num_blank_hangul_glyphs passed))"

text \<open>
  \<open>ALL_HANGUL_SYLLABLES_CODEPOINTS\<close> and \<open>MODERN_HANGUL_SYLLABLES_CODEPOINTS\<close> are tables of
  \<open>fontbakery.constants\<close> and \<open>unicodedata.category\<close> is the Unicode database: the check
  takes the three as parameters.
\<close>

definition com_adobe_fonts_check_find_empty_letters ::
  "(nat \<Rightarrow> string) \<Rightarrow> nat set \<Rightarrow> nat set \<Rightarrow> font \<Rightarrow> gen" where
  "com_adobe_fonts_check_find_empty_letters category ALL_HANGUL MODERN_HANGUL ttFont =
     (case t_cmap ttFont of
        None \<Rightarrow> ([], Some KeyError)
      | Some c \<Rightarrow>
          (case bestCmap c of
             None \<Rightarrow> ([], Some AttributeError)
           | Some cmap \<Rightarrow>
               find_empty_letters_loop category (ALL_HANGUL - MODERN_HANGUL) ttFont cmap 0 True))"

subsection \<open>com.adobe.fonts/check/nameid_1_win_english\<close>

text \<open>This check returns one result instead of yielding.\<close>

definition com_adobe_fonts_check_nameid_1_win_english :: "font \<Rightarrow> bool \<Rightarrow> py_error + result" where
  "com_adobe_fonts_check_nameid_1_win_english ttFont has_name_tbl =
     (if \<not> has_name_tbl then Inr (FAIL, Message ''name-table-not-found'' [])
      else case t_name ttFont of
        None \<Rightarrow> Inl KeyError
      | Some names \<Rightarrow>
          (case getName names 1 3 1 0x409 of
             None \<Rightarrow> Inr (FAIL, Message ''nameid-1-not-found'' [])
           | Some nameid_1 \<Rightarrow>
               (case toUnicode nameid_1 of
                  None \<Rightarrow> Inr (ERROR, Message ''nameid-1-decoding-error'' [])
                | Some nameid_1_unistr \<Rightarrow>
                    (if py_strip nameid_1_unistr = []
                     then Inr (FAIL, Message ''nameid-1-empty'' [])
                     else Inr (PASS,
                       Text ''Font contains a good Windows nameID 1 US-English record.'')))))"

section \<open>name.py\<close>

subsection \<open>com.adobe.fonts/check/name/empty_records\<close>

fun empty_records_loop :: "name_record list \<Rightarrow> bool \<Rightarrow> gen" where
  "empty_records_loop [] failed =
     (if \<not> failed then [(PASS, Text ''No empty name table records found.'')] else [], None)"
| "empty_records_loop (name_record # names) failed =
     (case toUnicode name_record of
        None \<Rightarrow> ([], Some UnicodeDecodeError)
      | Some u \<Rightarrow>
          (let name_string = py_strip u in
           if length name_string = 0
           then (let (rs, e) = empty_records_loop names True
                 in ((FAIL, Message ''empty-record''
                        [L [I (int (platformID name_record)), I (int (platEncID name_record)),
                            I (int (langID name_record)), I (int (nameID name_record))]]) # rs, e))
           else empty_records_loop names failed))"

definition com_adobe_fonts_check_name_empty_records :: "font \<Rightarrow> gen" where
  "com_adobe_fonts_check_name_empty_records ttFont =
     (case t_name ttFont of
        None \<Rightarrow> ([], Some KeyError)
      | Some names \<Rightarrow> empty_records_loop names False)"

subsection \<open>com.google.fonts/check/monospace\<close>

text \<open>
  For the hand-written and symbol family types the source compares \<open>panose.bSpacing\<close>
  with \<open>PANOSE_Spacing.MONOSPACED\<close>; the attribute does not exist, so the comparison is
  never reached.
\<close>

definition PANOSE_is_monospaced :: "panose \<Rightarrow> py_error + bool" where
  "PANOSE_is_monospaced p =
     (if bFamilyType p = LATIN_TEXT then Inr (bProportion p = PROPORTION_MONOSPACED)
      else if bFamilyType p \<in> set [LATIN_HAND_WRITTEN, LATIN_SYMBOL]
           then Inl AttributeError
           else Inr False)"

text \<open>The advice that is put into the message, as the pieces of its text.\<close>

definition PANOSE_expected :: "nat \<Rightarrow> arg" where
  "PANOSE_expected family_type =
     (if family_type = LATIN_TEXT
      then L [A ''Please set PANOSE Proportion to'', I (int PROPORTION_MONOSPACED)]
      else if family_type \<in> set [LATIN_HAND_WRITTEN, LATIN_SYMBOL]
      then L [A ''Please set PANOSE Spacing to'', I (int SPACING_MONOSPACED)]
      else if family_type = LATIN_SYMBOL
      then L [A ''PANOSE Family Type is set to 4 (latin symbol). Please set it instead to'',
              I (int LATIN_TEXT), I (int LATIN_HAND_WRITTEN), I (int LATIN_SYMBOL)]
      else L [A ''Note: Family Type is set to'', I (int family_type)])"

record glyph_metrics_stats =
  seems_monospaced :: bool
  most_common_width :: nat
  width_max :: nat

text \<open>The first loop: one FAIL for each required table that the font lacks.\<close>

definition monospace_missing :: "font \<Rightarrow> result list" where
  "monospace_missing ttFont =
     concat (map (\<lambda>key. if \<not> has_table ttFont key
                         then [(FAIL, Message (''lacks-'' @ key) [A key])] else [])
               [''glyf'', ''hhea'', ''hmtx'', ''OS/2'', ''post''])"

text \<open>The list comprehension \<open>unusually_spaced_glyphs\<close>; \<open>metrics[g]\<close> may raise.\<close>

fun unusually_spaced :: "string list \<Rightarrow> (string \<times> nat \<times> int) list \<Rightarrow> nat \<Rightarrow> py_error + string list" where
  "unusually_spaced [] metrics mcw = Inr []"
| "unusually_spaced (g # gs) metrics mcw =
     (if g \<in> set [''.notdef'', ''.null'', ''NULL''] then unusually_spaced gs metrics mcw
      else case map_of metrics g of
        None \<Rightarrow> Inl KeyError
      | Some m \<Rightarrow>
          bind_err (unusually_spaced gs metrics mcw)
            (\<lambda>us. Inr (if fst m \<noteq> 0 \<and> fst m \<noteq> mcw then g # us else us)))"

text \<open>
  The branch for a font that seems monospaced, after the results \<open>rs\<close> yielded so far.
  \<open>outliers_ratio\<close> is a quotient of two lengths: the division raises for a font without
  glyphs, and the ratio is positive exactly when the list of outliers is not empty.
\<close>

definition monospace_mono ::
  "(string \<times> glyph) list \<Rightarrow> (string \<times> nat \<times> int) list \<Rightarrow> panose \<Rightarrow> post_table \<Rightarrow> nat \<Rightarrow>
   result list \<Rightarrow> gen" where
  "monospace_mono glyphs metrics os2_panose post mcw rs =
     (let rs1 = rs @ (if isFixedPitch post = NOT_MONOSPACED
                      then [(FAIL, Message ''mono-bad-post-isFixedPitch''
                                     [I (int (isFixedPitch post))])] else [])
      in case PANOSE_is_monospaced os2_panose of
           Inl e \<Rightarrow> (rs1, Some e)
         | Inr is_monospaced \<Rightarrow>
             (let rs2 = rs1 @ (if \<not> is_monospaced
                               then [(FAIL, Message ''mono-bad-panose''
                                        [PANOSE_expected (bFamilyType os2_panose)])] else []);
                  num_glyphs = length glyphs
              in case unusually_spaced (map fst glyphs) metrics mcw of
                   Inl e \<Rightarrow> (rs2, Some e)
                 | Inr unusually_spaced_glyphs \<Rightarrow>
                     (if num_glyphs = 0 then (rs2, Some ZeroDivisionError)
                      else let rs3 = rs2 @ (if length unusually_spaced_glyphs > 0
                                            then [(WARN, Message ''mono-outliers''
                                                     [I (int (length unusually_spaced_glyphs)),
                                                      I (int num_glyphs),
                                                      L (map A unusually_spaced_glyphs)])]
                                            else [])
                           in (rs3 @ (if rs3 = []
                                      then [(PASS, Message ''mono-good'' [])] else []),
                               None))))"

text \<open>The branch for a font that does not seem monospaced.\<close>

definition monospace_nonmono :: "panose \<Rightarrow> post_table \<Rightarrow> result list \<Rightarrow> gen" where
  "monospace_nonmono os2_panose post rs =
     (let rs1 = rs @ (if isFixedPitch post \<noteq> NOT_MONOSPACED
                      then [(FAIL, Message ''bad-post-isFixedPitch''
                                     [I (int NOT_MONOSPACED), I (int (isFixedPitch post))])] else []);
          rs2 = rs1 @ (if bProportion os2_panose = PROPORTION_MONOSPACED
                       then [(FAIL, Message ''bad-panose'' [])] else [])
      in (rs2 @ (if rs2 = [] then [(PASS, Message ''good'' [])] else []), None))"

text \<open>
  In the source \<open>failed\<close> is set with every FAIL and WARN that follows the first loop, so
  the closing PASS is yielded exactly when nothing was yielded before it.
\<close>

definition com_google_fonts_check_monospace :: "font \<Rightarrow> glyph_metrics_stats \<Rightarrow> gen" where
  "com_google_fonts_check_monospace ttFont stats =
     (let missing = monospace_missing ttFont in
      if missing \<noteq> [] then (missing, None)
      else case (t_glyf ttFont, t_hhea ttFont, t_hmtx ttFont, t_OS2 ttFont, t_post ttFont) of
        (Some glyphs, Some hhea, Some metrics, Some os2_panose, Some post) \<Rightarrow>
          (let rs = (if advanceWidthMax hhea \<noteq> width_max stats
                     then [(FAIL, Message ''bad-advanceWidthMax''
                                    [I (int (width_max stats)), I (int (advanceWidthMax hhea))])]
                     else [])
           in if seems_monospaced stats
              then monospace_mono glyphs metrics os2_panose post (most_common_width stats) rs
              else monospace_nonmono os2_panose post rs)
      | _ \<Rightarrow> ([], Some KeyError))"

subsection \<open>com.google.fonts/check/name/match_familyname_fullfont\<close>

text \<open>The variables of the check that the loops update, and the results yielded so far.\<close>

record mf_state =
  yielded :: "result list"
  names_compared :: bool
  passed :: bool

text \<open>
  The body of the innermost loop, for one family nameID. \<open>full\<close> is the Full Name record
  of the combination, which the enclosing loop has found.
\<close>

definition family_step ::
  "name_record list \<Rightarrow> name_record \<Rightarrow> nat \<Rightarrow> nat \<Rightarrow> nat \<Rightarrow> nat \<Rightarrow> mf_state \<Rightarrow> mf_state" where
  "family_step names full plat_id enc_id lang_id family_name_id st =
     (case getName names family_name_id plat_id enc_id lang_id of
        None \<Rightarrow> st
      | Some family \<Rightarrow>
          (let st1 = st\<lparr>names_compared := True\<rparr> in
           case toUnicode family of
             None \<Rightarrow>
               st1\<lparr>yielded := yielded st1 @
                      [(FAIL, Message (''cannot-decode-nameid-'' @ str_nat family_name_id)
                                [I (int plat_id), I (int enc_id), I (int lang_id),
                                 I (int family_name_id)])],
                    passed := False\<rparr>
           | Some family_name \<Rightarrow>
               (case toUnicode full of
                  None \<Rightarrow>
                    st1\<lparr>yielded := yielded st1 @
                           [(FAIL, Message (''cannot-decode-nameid-'' @ str_nat FULL_FONT_NAME)
                                     [I (int plat_id), I (int enc_id), I (int lang_id),
                                      I (int FULL_FONT_NAME)])],
                         passed := False\<rparr>
                | Some full_name \<Rightarrow>
                    (if \<not> startswith full_name family_name
                     then st1\<lparr>yielded := yielded st1 @
                                 [(FAIL, Message ''mismatch-font-names''
                                           [S full_name, S family_name, I (int plat_id),
                                            I (int enc_id), I (int lang_id),
                                            I (int family_name_id)])],
                              passed := False\<rparr>
                     else st1))))"

definition lang_step :: "name_record list \<Rightarrow> nat \<Rightarrow> nat \<Rightarrow> nat \<Rightarrow> mf_state \<Rightarrow> mf_state" where
  "lang_step names plat_id enc_id lang_id st =
     (case getName names FULL_FONT_NAME plat_id enc_id lang_id of
        None \<Rightarrow> st
      | Some full \<Rightarrow>
          fold (family_step names full plat_id enc_id lang_id)
            [FONT_FAMILY_NAME, TYPOGRAPHIC_FAMILY_NAME, WWS_FAMILY_NAME] st)"

definition match_loops :: "name_record list \<Rightarrow> mf_state \<Rightarrow> mf_state" where
  "match_loops names st =
     (let platform_ids = set (map platformID names);
          encoding_ids = set (map platEncID names);
          language_ids = set (map langID names)
      in fold (\<lambda>plat_id.
           fold (\<lambda>enc_id.
             fold (\<lambda>lang_id. lang_step names plat_id enc_id lang_id)
               (sorted_list_of_set language_ids))
             (sorted_list_of_set encoding_ids))
           (sorted_list_of_set platform_ids) st)"

definition com_google_fonts_check_name_match_familyname_fullfont :: "font \<Rightarrow> gen" where
  "com_google_fonts_check_name_match_familyname_fullfont ttFont =
     (case t_name ttFont of
        None \<Rightarrow> ([], Some KeyError)
      | Some names \<Rightarrow>
          (let st = match_loops names \<lparr>yielded = [], names_compared = False, passed = True\<rparr>
           in (yielded st @
                 (if \<not> names_compared st
                  then [(FAIL, Message ''missing-font-names''
                           [I (int FULL_FONT_NAME), I (int FONT_FAMILY_NAME),
                            I (int TYPOGRAPHIC_FAMILY_NAME), I (int WWS_FAMILY_NAME)])]
                  else if passed st
                       then [(PASS, Text ''Full font name begins with the font family name.'')]
                       else []),
               None)))"

subsection \<open>com.google.fonts/check/family_naming_recommendations\<close>

text \<open>The regular expression \<open>[^A-Za-z0-9-]\<close> finds a character outside these.\<close>

definition psname_char :: "nat \<Rightarrow> bool" where
  "psname_char c \<longleftrightarrow>
     (0x41 \<le> c \<and> c \<le> 0x5A) \<or> (0x61 \<le> c \<and> c \<le> 0x7A) \<or> (0x30 \<le> c \<and> c \<le> 0x39) \<or> c = 0x2D"

definition bad_psname_search :: "pystr \<Rightarrow> bool" where
  "bad_psname_search string = list_ex (\<lambda>c. \<not> psname_char c) string"

text \<open>An element of \<open>bad_entries\<close>: the field, the value and the recommendation.\<close>

definition bad_entry :: "string \<Rightarrow> pystr \<Rightarrow> string \<Rightarrow> arg" where
  "bad_entry field v rec = L [A field, S v, A rec]"

text \<open>The entries that the first loop appends for one PostScript name.\<close>

definition psname_entries :: "pystr \<Rightarrow> arg list" where
  "psname_entries string =
     (if bad_psname_search string
      then [bad_entry ''PostScript Name'' string
              ''May contain only a-zA-Z0-9 characters and an hyphen.''] else []) @
     (if count_list string 0x2D > 1
      then [bad_entry ''Postscript Name'' string ''May contain not more than a single hyphen'']
      else [])"

text \<open>The entries that one of the length loops appends.\<close>

definition too_long :: "string \<Rightarrow> nat \<Rightarrow> string \<Rightarrow> pystr list \<Rightarrow> arg list" where
  "too_long field n rec strings =
     concat (map (\<lambda>string. if length string \<ge> n then [bad_entry field string rec] else [])
               strings)"

definition naming_bad_entries :: "font \<Rightarrow> py_error + arg list" where
  "naming_bad_entries ttFont =
     bind_err (get_name_entry_strings ttFont POSTSCRIPT_NAME None None None) (\<lambda>ps1.
     bind_err (get_name_entry_strings ttFont FULL_FONT_NAME None None None) (\<lambda>full.
     bind_err (get_name_entry_strings ttFont POSTSCRIPT_NAME None None None) (\<lambda>ps2.
     bind_err (get_name_entry_strings ttFont FONT_FAMILY_NAME None None None) (\<lambda>fam.
     bind_err (get_name_entry_strings ttFont FONT_SUBFAMILY_NAME None None None) (\<lambda>sub.
     bind_err (get_name_entry_strings ttFont TYPOGRAPHIC_FAMILY_NAME None None None) (\<lambda>tfam.
     bind_err (get_name_entry_strings ttFont TYPOGRAPHIC_SUBFAMILY_NAME None None None) (\<lambda>tsub.
       Inr (concat (map psname_entries ps1) @
            too_long ''Full Font Name'' 64 ''exceeds max length (63)'' full @
            too_long ''PostScript Name'' 64 ''exceeds max length (63)'' ps2 @
            too_long ''Family Name'' 32 ''exceeds max length (31)'' fam @
            too_long ''Style Name'' 32 ''exceeds max length (31)'' sub @
            too_long ''OT Family Name'' 32 ''exceeds max length (31)'' tfam @
            too_long ''OT Style Name'' 32 ''exceeds max length (31)'' tsub))))))))"

definition com_google_fonts_check_family_naming_recommendations :: "font \<Rightarrow> gen" where
  "com_google_fonts_check_family_naming_recommendations ttFont =
     (case naming_bad_entries ttFont of
        Inl e \<Rightarrow> ([], Some e)
      | Inr bad_entries \<Rightarrow>
          (if length bad_entries > 0
           then [(INFO, Message ''bad-entries'' [L bad_entries])]
           else [(PASS, Text ''Font follows the family naming recommendations.'')],
           None))"

subsection \<open>com.adobe.fonts/check/family/max_4_fonts_per_family_name\<close>

text \<open>
  The first loop. \<open>set(names_list)\<close> drops the duplicates of one font; the order in which
  Python then walks the set is not fixed, and \<open>remdups\<close> stands for it.
\<close>

fun collect_family_names :: "font list \<Rightarrow> pystr list \<Rightarrow> py_error + pystr list" where
  "collect_family_names [] family_names = Inr family_names"
| "collect_family_names (ttFont # ttFonts) family_names =
     (case get_name_entry_strings ttFont FONT_FAMILY_NAME (Some WINDOWS) (Some UNICODE_BMP)
             (Some ENGLISH_USA) of
        Inl e \<Rightarrow> Inl e
      | Inr names_list \<Rightarrow> collect_family_names ttFonts (family_names @ remdups names_list))"

text \<open>The keys of a \<open>Counter\<close>, in the order of their first occurrence.\<close>

fun uniq :: "'a list \<Rightarrow> 'a list" where
  "uniq [] = []"
| "uniq (x # xs) = x # filter (\<lambda>y. y \<noteq> x) (uniq xs)"

definition counter_items :: "'a list \<Rightarrow> ('a \<times> nat) list" where
  "counter_items xs = map (\<lambda>k. (k, count_list xs k)) (uniq xs)"

definition com_adobe_fonts_check_family_max_4_fonts_per_family_name :: "font list \<Rightarrow> gen" where
  "com_adobe_fonts_check_family_max_4_fonts_per_family_name ttFonts =
     (case collect_family_names ttFonts [] of
        Inl e \<Rightarrow> ([], Some e)
      | Inr family_names \<Rightarrow>
          (let fails = concat (map (\<lambda>(family_name, count).
                          if count > 4
                          then [(FAIL, Message ''too-many'' [S family_name, I (int count)])]
                          else []) (counter_items family_names))
           in (fails @ (if fails = []
                        then [(PASS, Text ''There were no more than 4 fonts per family name.'')]
                        else []),
               None)))"

section \<open>Example fonts\<close>

text \<open>Concrete fonts on which the checks are evaluated below.\<close>

definition empty_font :: font where
  "empty_font = \<lparr>t_name = None, t_head = None, t_glyf = None, t_hhea = None, t_hmtx = None,
     t_OS2 = None, t_post = None, t_CFF2 = None, t_CFF = None, t_cmap = None\<rparr>"

definition name_font :: "name_record list \<Rightarrow> font" where
  "name_font names = empty_font\<lparr>t_name := Some names\<rparr>"

definition upm_font :: "nat \<Rightarrow> font" where
  "upm_font u = empty_font\<lparr>t_head := Some \<lparr>unitsPerEm = u\<rparr>\<rparr>"

text \<open>A Windows, Unicode BMP, US-English name record.\<close>

definition win_name :: "nat \<Rightarrow> pystr option \<Rightarrow> name_record" where
  "win_name nid s = \<lparr>platformID = 3, platEncID = 1, langID = 0x409, nameID = nid, toUnicode = s\<rparr>"

definition psname_font :: "string \<Rightarrow> font" where
  "psname_font s = name_font [win_name 6 (Some (ustr s))]"

definition five_records_font :: font where
  "five_records_font = name_font (replicate 5 (win_name 1 (Some (ustr ''ExampleSans''))))"


text \<open>
  A font whose Windows family name is held by two records.
\<close>

definition two_records_font :: font where
  "two_records_font =
     name_font [win_name 1 (Some (ustr ''ExampleSans'')), win_name 1 (Some (ustr ''ExampleSans''))]"

text \<open>
  A font whose cmap table has no Unicode subtable, and a font that maps a codepoint to a
  glyph but has no glyf, CFF2 or CFF table.
\<close>

definition no_unicode_cmap_font :: font where
  "no_unicode_cmap_font = empty_font\<lparr>t_cmap := Some \<lparr>bestCmap = None\<rparr>\<rparr>"

definition no_outline_font :: font where
  "no_outline_font = empty_font\<lparr>t_cmap := Some \<lparr>bestCmap = Some [(0x61, ''a'')]\<rparr>\<rparr>"

text \<open>
  A font with a Windows family name and full name record.
\<close>

definition example_font :: "string \<Rightarrow> string \<Rightarrow> font" where
  "example_font family_name full_name =
     \<lparr>t_name = Some [\<lparr>platformID = 3, platEncID = 1, langID = 0x409, nameID = 1,
                       toUnicode = Some (ustr family_name)\<rparr>,
                     \<lparr>platformID = 3, platEncID = 1, langID = 0x409, nameID = 4,
                       toUnicode = Some (ustr full_name)\<rparr>],
      t_head = None, t_glyf = None, t_hhea = None, t_hmtx = None,
      t_OS2 = None, t_post = None, t_CFF2 = None, t_CFF = None, t_cmap = None\<rparr>"

text \<open>
  Fonts with a family name record that cannot be decoded.
\<close>

definition undecodable_font :: font where
  "undecodable_font =
     \<lparr>t_name = Some [\<lparr>platformID = 3, platEncID = 1, langID = 0x409, nameID = 1,
                       toUnicode = None\<rparr>,
                     \<lparr>platformID = 3, platEncID = 1, langID = 0x409, nameID = 4,
                       toUnicode = Some (ustr ''ExampleSans Bold'')\<rparr>],
      t_head = None, t_glyf = None, t_hhea = None, t_hmtx = None,
      t_OS2 = None, t_post = None, t_CFF2 = None, t_CFF = None, t_cmap = None\<rparr>"

definition partly_undecodable_font :: font where
  "partly_undecodable_font =
     \<lparr>t_name = Some [\<lparr>platformID = 3, platEncID = 1, langID = 0x409, nameID = 1,
                       toUnicode = Some (ustr ''ExampleSans'')\<rparr>,
                     \<lparr>platformID = 3, platEncID = 1, langID = 0x409, nameID = 4,
                       toUnicode = Some (ustr ''ExampleSans Bold'')\<rparr>,
                     \<lparr>platformID = 3, platEncID = 1, langID = 0x409, nameID = 16,
                       toUnicode = None\<rparr>],
      t_head = None, t_glyf = None, t_hhea = None, t_hmtx = None,
      t_OS2 = None, t_post = None, t_CFF2 = None, t_CFF = None, t_cmap = None\<rparr>"

text \<open>
  A TrueType font with an empty glyph \<open>a\<close> and a glyph \<open>b\<close> with one contour.
\<close>

definition glyf_font :: font where
  "glyf_font =
     \<lparr>t_name = None, t_head = None,
      t_glyf = Some [(''a'', \<lparr>isComposite = False, numberOfContours = 0\<rparr>),
                     (''b'', \<lparr>isComposite = False, numberOfContours = 1\<rparr>)],
      t_hhea = None, t_hmtx = None, t_OS2 = None, t_post = None, t_CFF2 = None, t_CFF = None,
      t_cmap = Some \<lparr>bestCmap = Some [(0x61, ''a''), (0x62, ''b''), (0xAC00, ''a''),
                                        (0x115F, ''a'')]\<rparr>\<rparr>"

text \<open>Glyph metrics statistics of a font that does not seem monospaced.\<close>

definition no_stats :: glyph_metrics_stats where
  "no_stats = \<lparr>seems_monospaced = False, most_common_width = 0, width_max = 0\<rparr>"

section \<open>Notions of the statements\<close>

text \<open>
  Some name entry of the six lists (PostScript, full, family, subfamily, typographic family
  and typographic subfamily names) breaks a naming recommendation.
\<close>

definition naming_violation ::
  "pystr list \<Rightarrow> pystr list \<Rightarrow> pystr list \<Rightarrow> pystr list \<Rightarrow> pystr list \<Rightarrow> pystr list \<Rightarrow> bool" where
  "naming_violation ps full fam sub tfam tsub \<longleftrightarrow>
     list_ex (\<lambda>s. list_ex (\<lambda>c. \<not> psname_char c) s) ps \<or>
     list_ex (\<lambda>s. count_list s 0x2D > 1) ps \<or>
     list_ex (\<lambda>s. length s > 63) full \<or> list_ex (\<lambda>s. length s > 63) ps \<or>
     list_ex (\<lambda>s. length s > 31) fam \<or> list_ex (\<lambda>s. length s > 31) sub \<or>
     list_ex (\<lambda>s. length s > 31) tfam \<or> list_ex (\<lambda>s. length s > 31) tsub"

text \<open>The family names that max_4_fonts_per_family_name reads from one font.\<close>

definition family_names_of :: "font \<Rightarrow> py_error + pystr list" where
  "family_names_of ttFont =
     get_name_entry_strings ttFont FONT_FAMILY_NAME (Some WINDOWS) (Some UNICODE_BMP)
       (Some ENGLISH_USA)"

text \<open>
  The family names of each font of a list, as the first loop of the check reads them: the
  first exception ends the reading.
\<close>

fun read_family_names :: "font list \<Rightarrow> py_error + pystr list list" where
  "read_family_names [] = Inr []"
| "read_family_names (ttFont # ttFonts) =
     (case family_names_of ttFont of
        Inl e \<Rightarrow> Inl e
      | Inr ns \<Rightarrow>
          (case read_family_names ttFonts of Inl e \<Rightarrow> Inl e | Inr nss \<Rightarrow> Inr (ns # nss)))"

text \<open>
  The number of fonts that carry the family name \<open>n\<close>, where \<open>nss\<close> lists the family
  names of each font, and the FAIL that reports it.
\<close>

definition fonts_sharing :: "pystr list list \<Rightarrow> pystr \<Rightarrow> nat" where
  "fonts_sharing nss n = length (filter (\<lambda>ns. n \<in> set ns) nss)"

definition too_many :: "pystr list list \<Rightarrow> pystr \<Rightarrow> result" where
  "too_many nss n = (FAIL, Message ''too-many'' [S n, I (int (fonts_sharing nss n))])"

text \<open>
  The notions for match_familyname_fullfont. \<open>mf_add\<close> is the effect that one pass through
  a loop body has on the variables of the check: it yields \<open>rs\<close>, and records whether a
  comparison was attempted.
\<close>

definition mf_add :: "result list \<Rightarrow> bool \<Rightarrow> mf_state \<Rightarrow> mf_state" where
  "mf_add rs c st =
     st\<lparr>yielded := yielded st @ rs, names_compared := (names_compared st \<or> c),
        passed := (passed st \<and> rs = [])\<rparr>"

text \<open>
  The two FAIL results of a comparison.
\<close>

definition decode_fail :: "nat \<Rightarrow> nat \<Rightarrow> nat \<Rightarrow> nat \<Rightarrow> result" where
  "decode_fail plat_id enc_id lang_id nid =
     (FAIL, Message (''cannot-decode-nameid-'' @ str_nat nid)
              [I (int plat_id), I (int enc_id), I (int lang_id), I (int nid)])"

definition mismatch :: "pystr \<Rightarrow> pystr \<Rightarrow> nat \<Rightarrow> nat \<Rightarrow> nat \<Rightarrow> nat \<Rightarrow> result" where
  "mismatch full_name family_name plat_id enc_id lang_id nid =
     (FAIL, Message ''mismatch-font-names''
              [S full_name, S family_name, I (int plat_id), I (int enc_id), I (int lang_id),
               I (int nid)])"

text \<open>
  What the comparison of a Full Name record with a family name record yields, and what
  one combination and the whole table yield.
\<close>

definition pair_verdict :: "name_record \<Rightarrow> name_record \<Rightarrow> nat \<Rightarrow> nat \<Rightarrow> nat \<Rightarrow> nat \<Rightarrow> result list" where
  "pair_verdict full family plat_id enc_id lang_id nid =
     (case toUnicode family of
        None \<Rightarrow> [decode_fail plat_id enc_id lang_id nid]
      | Some family_name \<Rightarrow>
          (case toUnicode full of
             None \<Rightarrow> [decode_fail plat_id enc_id lang_id FULL_FONT_NAME]
           | Some full_name \<Rightarrow>
               if startswith full_name family_name then []
               else [mismatch full_name family_name plat_id enc_id lang_id nid]))"

definition family_ids :: "nat list" where
  "family_ids = [FONT_FAMILY_NAME, TYPOGRAPHIC_FAMILY_NAME, WWS_FAMILY_NAME]"

definition family_verdict :: "name_record list \<Rightarrow> name_record \<Rightarrow> nat \<Rightarrow> nat \<Rightarrow> nat \<Rightarrow> nat \<Rightarrow> result list" where
  "family_verdict names full p e l nid =
     (case getName names nid p e l of None \<Rightarrow> [] | Some family \<Rightarrow> pair_verdict full family p e l nid)"

definition lang_verdict :: "name_record list \<Rightarrow> nat \<Rightarrow> nat \<Rightarrow> nat \<Rightarrow> result list" where
  "lang_verdict names p e l =
     (case getName names FULL_FONT_NAME p e l of
        None \<Rightarrow> []
      | Some full \<Rightarrow> concat (map (family_verdict names full p e l) family_ids))"

definition lang_present :: "name_record list \<Rightarrow> nat \<Rightarrow> nat \<Rightarrow> nat \<Rightarrow> bool" where
  "lang_present names p e l \<longleftrightarrow>
     getName names FULL_FONT_NAME p e l \<noteq> None \<and>
     list_ex (\<lambda>nid. getName names nid p e l \<noteq> None) family_ids"

definition all_verdicts :: "name_record list \<Rightarrow> result list" where
  "all_verdicts names =
     concat (map (\<lambda>p. concat (map (\<lambda>e. concat (map (\<lambda>l. lang_verdict names p e l)
         (sorted_list_of_set (set (map langID names)))))
         (sorted_list_of_set (set (map platEncID names)))))
         (sorted_list_of_set (set (map platformID names))))"

definition any_present :: "name_record list \<Rightarrow> bool" where
  "any_present names =
     list_ex (\<lambda>p. list_ex (\<lambda>e. list_ex (\<lambda>l. lang_present names p e l)
         (sorted_list_of_set (set (map langID names))))
         (sorted_list_of_set (set (map platEncID names))))
         (sorted_list_of_set (set (map platformID names)))"

definition missing_font_names :: result where
  "missing_font_names =
     (FAIL, Message ''missing-font-names''
        [I (int FULL_FONT_NAME), I (int FONT_FAMILY_NAME), I (int TYPOGRAPHIC_FAMILY_NAME),
         I (int WWS_FAMILY_NAME)])"

text \<open>
  The notions for find_empty_letters: the cmap entries with an empty glyph in the Hangul
  set, those with an empty letter glyph that are reported, and the cmaps on which the check
  reads every glyph without an exception.
\<close>

definition glyph_is_empty :: "font \<Rightarrow> string \<Rightarrow> bool" where
  "glyph_is_empty ttFont glyph_name \<longleftrightarrow>
     quick_and_dirty_glyph_is_empty ttFont glyph_name = Inr True"

definition blank_hangul_entries ::
  "nat set \<Rightarrow> nat set \<Rightarrow> font \<Rightarrow> (nat \<times> string) list \<Rightarrow> (nat \<times> string) list" where
  "blank_hangul_entries ALL_HANGUL MODERN_HANGUL ttFont cmap =
     filter (\<lambda>(u, g). glyph_is_empty ttFont g \<and> u \<in> ALL_HANGUL - MODERN_HANGUL) cmap"

definition empty_letter_entries ::
  "(nat \<Rightarrow> string) \<Rightarrow> nat set \<Rightarrow> nat set \<Rightarrow> font \<Rightarrow> (nat \<times> string) list \<Rightarrow> (nat \<times> string) list" where
  "empty_letter_entries category ALL_HANGUL MODERN_HANGUL ttFont cmap =
     filter (\<lambda>(u, g). glyph_is_empty ttFont g \<and> u \<notin> ALL_HANGUL - MODERN_HANGUL \<and>
                       category u \<in> {''Ll'', ''Lm'', ''Lo'', ''Lt'', ''Lu''} \<and>
                       u \<notin> {0x115F, 0x1160, 0x3164, 0xFFA0}) cmap"

definition empty_letter :: "nat \<times> string \<Rightarrow> result" where
  "empty_letter entry = (FAIL, Message ''empty-letter'' [I (int (fst entry)), A (snd entry)])"

definition readable_cmap :: "font \<Rightarrow> (nat \<times> string) list \<Rightarrow> bool" where
  "readable_cmap ttFont cmap \<longleftrightarrow>
     list_all (\<lambda>(u, g). u \<le> 0x10FFFF \<and> quick_and_dirty_glyph_is_empty ttFont g \<in> {Inr True, Inr False})
       cmap"

section \<open>Properties\<close>

subsection \<open>consistent_upm\<close>

lemma collect_upm_Inr:
  "(\<forall>f \<in> set ttFonts. t_head f \<noteq> None) \<Longrightarrow>
   collect_upm ttFonts s = Inr (s \<union> (\<lambda>f. unitsPerEm (the (t_head f))) ` set ttFonts)"
  by (induction ttFonts arbitrary: s) auto

lemma collect_upm_Inl:
  "\<exists>f \<in> set ttFonts. t_head f = None \<Longrightarrow> collect_upm ttFonts s = Inl KeyError"
  by (induction ttFonts arbitrary: s) (auto split: option.splits)

text \<open>
  C9. For the empty list of fonts the check yields exactly one result, a PASS, and ends
  normally: the set of collected unitsPerEm values is empty, and an empty set does not
  hold more than one value.
\<close>

theorem consistent_upm_empty:
  "com_adobe_fonts_check_family_consistent_upm [] =
     ([(PASS, Text ''Fonts have consistent units per em.'')], None)"
  by (simp add: com_adobe_fonts_check_family_consistent_upm_def)

lemma card_image_le1:
  assumes "xs \<noteq> []"
  shows "(card (g ` set xs) \<le> 1) \<longleftrightarrow> (\<exists>u. \<forall>x \<in> set xs. g x = u)"
proof
  assume a: "card (g ` set xs) \<le> 1"
  have "g x = g (hd xs)" if "x \<in> set xs" for x
  proof (rule ccontr)
    assume ne: "g x \<noteq> g (hd xs)"
    have "hd xs \<in> set xs" using assms by simp
    then have "{g x, g (hd xs)} \<subseteq> g ` set xs" using that by blast
    then have "card {g x, g (hd xs)} \<le> card (g ` set xs)" by (intro card_mono) auto
    moreover have "card {g x, g (hd xs)} = 2" using ne by simp
    ultimately show False using a by simp
  qed
  then show "\<exists>u. \<forall>x \<in> set xs. g x = u" by blast
next
  assume "\<exists>u. \<forall>x \<in> set xs. g x = u"
  then obtain u where "\<forall>x \<in> set xs. g x = u" by blast
  then have "g ` set xs \<subseteq> {u}" by auto
  then have "card (g ` set xs) \<le> card {u}" by (intro card_mono) auto
  then show "card (g ` set xs) \<le> 1" by simp
qed

text \<open>
  C4, as the code has it. For a non-empty list of fonts the check yields PASS if and only
  if every font has a head table and all fonts share a single head.unitsPerEm value, and
  then PASS is its only result; when every font has a head table and the fonts have more
  than one distinct unitsPerEm value it yields a single FAIL with the code
  inconsistent-upem, listing the sorted values, and no PASS.
\<close>

theorem consistent_upm_pass_iff:
  assumes "ttFonts \<noteq> []"
  shows
   "(PASS \<in> fst ` set (fst (com_adobe_fonts_check_family_consistent_upm ttFonts))
       \<longleftrightarrow> (\<exists>u. \<forall>f \<in> set ttFonts. map_option unitsPerEm (t_head f) = Some u)) \<and>
    ((\<exists>u. \<forall>f \<in> set ttFonts. map_option unitsPerEm (t_head f) = Some u) \<longrightarrow>
       com_adobe_fonts_check_family_consistent_upm ttFonts =
         ([(PASS, Text ''Fonts have consistent units per em.'')], None)) \<and>
    ((\<forall>f \<in> set ttFonts. t_head f \<noteq> None) \<and>
     1 < card ((\<lambda>f. unitsPerEm (the (t_head f))) ` set ttFonts) \<longrightarrow>
       com_adobe_fonts_check_family_consistent_upm ttFonts =
         ([(FAIL, Message ''inconsistent-upem''
              [L (map (\<lambda>u. I (int u))
                    (sorted_list_of_set ((\<lambda>f. unitsPerEm (the (t_head f))) ` set ttFonts)))])],
          None))"
proof (cases "\<forall>f \<in> set ttFonts. t_head f \<noteq> None")
  case False
  then have "collect_upm ttFonts {} = Inl KeyError"
    by (intro collect_upm_Inl) auto
  then have r: "com_adobe_fonts_check_family_consistent_upm ttFonts = ([], Some KeyError)"
    by (simp add: com_adobe_fonts_check_family_consistent_upm_def)
  have "\<not> (\<exists>u. \<forall>f \<in> set ttFonts. map_option unitsPerEm (t_head f) = Some u)"
    using False by fastforce
  with r False show ?thesis by simp
next
  case True
  let ?g = "\<lambda>f. unitsPerEm (the (t_head f))"
  have c: "collect_upm ttFonts {} = Inr (?g ` set ttFonts)"
    using collect_upm_Inr[OF True, of "{}"] by simp
  have pt: "(map_option unitsPerEm (t_head f) = Some u) = (?g f = u)" if "f \<in> set ttFonts" for f u
    using True that by (cases "t_head f") auto
  have eq: "(\<exists>u. \<forall>f \<in> set ttFonts. map_option unitsPerEm (t_head f) = Some u)
         \<longleftrightarrow> (\<exists>u. \<forall>f \<in> set ttFonts. ?g f = u)"
    using pt by blast
  have le: "(card (?g ` set ttFonts) \<le> 1) \<longleftrightarrow> (\<exists>u. \<forall>f \<in> set ttFonts. ?g f = u)"
    by (rule card_image_le1[OF assms])
  show ?thesis
  proof (cases "card (?g ` set ttFonts) \<le> 1")
    case le1: True
    then have "\<exists>u. \<forall>f \<in> set ttFonts. map_option unitsPerEm (t_head f) = Some u"
      using eq le by blast
    moreover have "com_adobe_fonts_check_family_consistent_upm ttFonts =
         ([(PASS, Text ''Fonts have consistent units per em.'')], None)"
      using c le1 by (simp add: com_adobe_fonts_check_family_consistent_upm_def)
    ultimately show ?thesis using le1 by simp
  next
    case gt: False
    then have n: "\<not> (\<exists>u. \<forall>f \<in> set ttFonts. map_option unitsPerEm (t_head f) = Some u)"
      using eq le by blast
    have "com_adobe_fonts_check_family_consistent_upm ttFonts =
         ([(FAIL, Message ''inconsistent-upem''
              [L (map (\<lambda>u. I (int u)) (sorted_list_of_set (?g ` set ttFonts)))])], None)"
      using c gt by (simp add: com_adobe_fonts_check_family_consistent_upm_def)
    then show ?thesis using n by simp
  qed
qed

theorem consistent_upm_pass_iff_witness:
  "com_adobe_fonts_check_family_consistent_upm [upm_font 1000, upm_font 1000] =
     ([(PASS, Text ''Fonts have consistent units per em.'')], None) \<and>
   com_adobe_fonts_check_family_consistent_upm [upm_font 1000, upm_font 2048] =
     ([(FAIL, Message ''inconsistent-upem'' [L [I 1000, I 2048]])], None)"
  using consistent_upm_pass_iff[of "[upm_font 1000, upm_font 1000]"]
        consistent_upm_pass_iff[of "[upm_font 1000, upm_font 2048]"]
  by (simp add: upm_font_def empty_font_def)

text \<open>
  Two fonts with distinct unitsPerEm values and a third font without a head table: the
  check raises KeyError and yields no FAIL.
\<close>

theorem consistent_upm_headless_counterexample:
  "com_adobe_fonts_check_family_consistent_upm [upm_font 1000, upm_font 2048, empty_font] =
     ([], Some KeyError)"
  by (simp add: com_adobe_fonts_check_family_consistent_upm_def upm_font_def empty_font_def)

lemma dropWhile_all_iff: "(\<forall>x \<in> set (dropWhile P xs). P x) \<longleftrightarrow> (\<forall>x \<in> set xs. P x)"
proof
  assume a: "\<forall>x \<in> set (dropWhile P xs). P x"
  have "dropWhile P xs = []"
  proof (rule ccontr)
    assume ne: "dropWhile P xs \<noteq> []"
    then have "\<not> P (hd (dropWhile P xs))" by (rule hd_dropWhile)
    moreover have "hd (dropWhile P xs) \<in> set (dropWhile P xs)" using ne by simp
    ultimately show False using a by blast
  qed
  then show "\<forall>x \<in> set xs. P x" by (simp add: dropWhile_eq_Nil_conv)
next
  assume "\<forall>x \<in> set xs. P x"
  then show "\<forall>x \<in> set (dropWhile P xs). P x" by (blast dest: set_dropWhileD)
qed

lemma py_strip_empty_iff: "py_strip s = [] \<longleftrightarrow> (\<forall>c \<in> set s. py_isspace c)"
  by (simp add: py_strip_def dropWhile_eq_Nil_conv dropWhile_all_iff)

subsection \<open>nameid_1_win_english\<close>

text \<open>
  C1, as the code has it. With the condition has_name_table computed from the font, the
  check returns exactly one result and never raises. The result is FAIL
  name-table-not-found when the font has no name table; FAIL nameid-1-not-found when the
  table has no record with nameID 1, platformID 3, encodingID 1 and languageID 0x409; ERROR
  nameid-1-decoding-error when that record cannot be decoded; FAIL nameid-1-empty when the
  decoded string is empty or holds nothing but whitespace; PASS otherwise. The five cases
  exclude each other and cover every font.
\<close>

theorem nameid_1_win_english_outcomes:
  "(\<exists>r. com_adobe_fonts_check_nameid_1_win_english ttFont (has_name_table ttFont) = Inr r) \<and>
   (t_name ttFont = None \<longrightarrow>
      com_adobe_fonts_check_nameid_1_win_english ttFont (has_name_table ttFont) =
        Inr (FAIL, Message ''name-table-not-found'' [])) \<and>
   (\<forall>names. t_name ttFont = Some names \<and> getName names 1 3 1 0x409 = None \<longrightarrow>
      com_adobe_fonts_check_nameid_1_win_english ttFont (has_name_table ttFont) =
        Inr (FAIL, Message ''nameid-1-not-found'' [])) \<and>
   (\<forall>names r. t_name ttFont = Some names \<and> getName names 1 3 1 0x409 = Some r \<and>
        toUnicode r = None \<longrightarrow>
      com_adobe_fonts_check_nameid_1_win_english ttFont (has_name_table ttFont) =
        Inr (ERROR, Message ''nameid-1-decoding-error'' [])) \<and>
   (\<forall>names r s. t_name ttFont = Some names \<and> getName names 1 3 1 0x409 = Some r \<and>
        toUnicode r = Some s \<and> (\<forall>c \<in> set s. py_isspace c) \<longrightarrow>
      com_adobe_fonts_check_nameid_1_win_english ttFont (has_name_table ttFont) =
        Inr (FAIL, Message ''nameid-1-empty'' [])) \<and>
   (\<forall>names r s. t_name ttFont = Some names \<and> getName names 1 3 1 0x409 = Some r \<and>
        toUnicode r = Some s \<and> (\<exists>c \<in> set s. \<not> py_isspace c) \<longrightarrow>
      com_adobe_fonts_check_nameid_1_win_english ttFont (has_name_table ttFont) =
        Inr (PASS, Text ''Font contains a good Windows nameID 1 US-English record.''))"
  by (auto simp: com_adobe_fonts_check_nameid_1_win_english_def has_name_table_def has_table_def
        py_strip_empty_iff split: option.splits)

theorem nameid_1_win_english_outcomes_witness:
  "com_adobe_fonts_check_nameid_1_win_english
     (name_font [win_name 1 (Some (ustr ''ExampleSans''))]) True =
     Inr (PASS, Text ''Font contains a good Windows nameID 1 US-English record.'')"
  using nameid_1_win_english_outcomes[of "name_font [win_name 1 (Some (ustr ''ExampleSans''))]"]
  by (simp add: name_font_def empty_font_def win_name_def ustr_def getName_def
        has_name_table_def has_table_def py_isspace_def)

text \<open>
  The record of this font decodes to the one-character string of a space, which is not the
  empty string, and the check still answers FAIL nameid-1-empty.
\<close>

theorem nameid_1_whitespace_counterexample:
  "toUnicode (win_name 1 (Some (ustr '' ''))) = Some [0x20] \<and> [0x20 :: nat] \<noteq> [] \<and>
   com_adobe_fonts_check_nameid_1_win_english
     (name_font [win_name 1 (Some (ustr '' ''))])
     (has_name_table (name_font [win_name 1 (Some (ustr '' ''))])) =
     Inr (FAIL, Message ''nameid-1-empty'' [])"
  by (simp add: com_adobe_fonts_check_nameid_1_win_english_def name_font_def empty_font_def
        win_name_def ustr_def getName_def has_name_table_def has_table_def py_strip_def
        py_isspace_def)

subsection \<open>family_naming_recommendations\<close>

lemma too_long_Nil_iff: "too_long field (Suc n) r strings = [] \<longleftrightarrow> \<not> list_ex (\<lambda>s. length s > n) strings"
  by (induction strings) (auto simp: too_long_def)

lemma psname_entries_Nil_iff:
  "concat (map psname_entries ps) = [] \<longleftrightarrow>
     \<not> list_ex (\<lambda>s. list_ex (\<lambda>c. \<not> psname_char c) s) ps \<and> \<not> list_ex (\<lambda>s. count_list s 0x2D > 1) ps"
  by (induction ps) (auto simp: psname_entries_def bad_psname_search_def)

lemma naming_bad_entries_Nil_iff:
  assumes "get_name_entry_strings ttFont POSTSCRIPT_NAME None None None = Inr ps"
      and "get_name_entry_strings ttFont FULL_FONT_NAME None None None = Inr full"
      and "get_name_entry_strings ttFont FONT_FAMILY_NAME None None None = Inr fam"
      and "get_name_entry_strings ttFont FONT_SUBFAMILY_NAME None None None = Inr sub"
      and "get_name_entry_strings ttFont TYPOGRAPHIC_FAMILY_NAME None None None = Inr tfam"
      and "get_name_entry_strings ttFont TYPOGRAPHIC_SUBFAMILY_NAME None None None = Inr tsub"
  shows "\<exists>entries. naming_bad_entries ttFont = Inr entries \<and>
           (entries = [] \<longleftrightarrow> \<not> naming_violation ps full fam sub tfam tsub)"
proof -
  have n64: "(64::nat) = Suc 63" and n32: "(32::nat) = Suc 31" by simp_all
  have "naming_bad_entries ttFont =
          Inr (concat (map psname_entries ps) @
            too_long ''Full Font Name'' 64 ''exceeds max length (63)'' full @
            too_long ''PostScript Name'' 64 ''exceeds max length (63)'' ps @
            too_long ''Family Name'' 32 ''exceeds max length (31)'' fam @
            too_long ''Style Name'' 32 ''exceeds max length (31)'' sub @
            too_long ''OT Family Name'' 32 ''exceeds max length (31)'' tfam @
            too_long ''OT Style Name'' 32 ''exceeds max length (31)'' tsub)"
    by (simp add: naming_bad_entries_def assms bind_err_def)
  moreover have "(concat (map psname_entries ps) @
            too_long ''Full Font Name'' 64 ''exceeds max length (63)'' full @
            too_long ''PostScript Name'' 64 ''exceeds max length (63)'' ps @
            too_long ''Family Name'' 32 ''exceeds max length (31)'' fam @
            too_long ''Style Name'' 32 ''exceeds max length (31)'' sub @
            too_long ''OT Family Name'' 32 ''exceeds max length (31)'' tfam @
            too_long ''OT Style Name'' 32 ''exceeds max length (31)'' tsub = [])
          \<longleftrightarrow> \<not> naming_violation ps full fam sub tfam tsub"
    unfolding n64 n32 append_is_Nil_conv too_long_Nil_iff psname_entries_Nil_iff naming_violation_def
    by blast
  ultimately show ?thesis by blast
qed

text \<open>
  C8, as the code has it. When the name entries can be read, the check yields exactly one
  result: a report with the code bad-entries and a non-empty list of violating entries,
  emitted with INFO status, exactly when some PostScript Name contains a character outside
  A-Za-z0-9 and hyphen or more than one hyphen, some Full Font Name or PostScript Name is
  longer than 63 characters, or some Family, Subfamily, Typographic Family or Typographic
  Subfamily name is longer than 31 characters; and a PASS when no entry does.
\<close>

theorem naming_recommendations_report:
  assumes "get_name_entry_strings ttFont POSTSCRIPT_NAME None None None = Inr ps"
      and "get_name_entry_strings ttFont FULL_FONT_NAME None None None = Inr full"
      and "get_name_entry_strings ttFont FONT_FAMILY_NAME None None None = Inr fam"
      and "get_name_entry_strings ttFont FONT_SUBFAMILY_NAME None None None = Inr sub"
      and "get_name_entry_strings ttFont TYPOGRAPHIC_FAMILY_NAME None None None = Inr tfam"
      and "get_name_entry_strings ttFont TYPOGRAPHIC_SUBFAMILY_NAME None None None = Inr tsub"
  shows "(if naming_violation ps full fam sub tfam tsub
          then \<exists>entries. entries \<noteq> [] \<and>
                 com_google_fonts_check_family_naming_recommendations ttFont =
                   ([(INFO, Message ''bad-entries'' [L entries])], None)
          else com_google_fonts_check_family_naming_recommendations ttFont =
                 ([(PASS, Text ''Font follows the family naming recommendations.'')], None))"
proof -
  obtain entries where e: "naming_bad_entries ttFont = Inr entries"
    and iff: "entries = [] \<longleftrightarrow> \<not> naming_violation ps full fam sub tfam tsub"
    using naming_bad_entries_Nil_iff[OF assms] by blast
  show ?thesis
  proof (cases "naming_violation ps full fam sub tfam tsub")
    case True
    then have "entries \<noteq> []" using iff by simp
    then show ?thesis using True e
      by (simp add: com_google_fonts_check_family_naming_recommendations_def)
  next
    case False
    then have "entries = []" using iff by simp
    then show ?thesis using False e
      by (simp add: com_google_fonts_check_family_naming_recommendations_def)
  qed
qed

theorem naming_recommendations_report_witness:
  "com_google_fonts_check_family_naming_recommendations (psname_font ''ExampleSans-Bold'') =
     ([(PASS, Text ''Font follows the family naming recommendations.'')], None) \<and>
   (\<exists>entries. entries \<noteq> [] \<and>
      com_google_fonts_check_family_naming_recommendations (psname_font ''Example-Sans-Bold'') =
        ([(INFO, Message ''bad-entries'' [L entries])], None))"
  using naming_recommendations_report[of "psname_font ''ExampleSans-Bold''"
          "[ustr ''ExampleSans-Bold'']" "[]" "[]" "[]" "[]" "[]"]
        naming_recommendations_report[of "psname_font ''Example-Sans-Bold''"
          "[ustr ''Example-Sans-Bold'']" "[]" "[]" "[]" "[]" "[]"]
  by (simp add: psname_font_def name_font_def empty_font_def win_name_def get_name_entry_strings_def get_name_entries_def FONT_FAMILY_NAME_def FONT_SUBFAMILY_NAME_def FULL_FONT_NAME_def
        POSTSCRIPT_NAME_def TYPOGRAPHIC_FAMILY_NAME_def TYPOGRAPHIC_SUBFAMILY_NAME_def
        bind_err_def naming_violation_def ustr_def psname_char_def)

text \<open>
  A PostScript name with a space is reported, and the report has INFO status: the check
  yields neither FAIL nor WARN.
\<close>

theorem naming_recommendations_info_counterexample:
  "com_google_fonts_check_family_naming_recommendations (psname_font ''A B'') =
     ([(INFO, Message ''bad-entries''
          [L [L [A ''PostScript Name'', S [0x41, 0x20, 0x42],
                 A ''May contain only a-zA-Z0-9 characters and an hyphen.'']]])], None)"
  by (simp add: com_google_fonts_check_family_naming_recommendations_def naming_bad_entries_def
        psname_font_def name_font_def empty_font_def win_name_def get_name_entry_strings_def get_name_entries_def FONT_FAMILY_NAME_def FONT_SUBFAMILY_NAME_def FULL_FONT_NAME_def
        POSTSCRIPT_NAME_def TYPOGRAPHIC_FAMILY_NAME_def TYPOGRAPHIC_SUBFAMILY_NAME_def
        bind_err_def ustr_def psname_char_def psname_entries_def bad_psname_search_def
        too_long_def bad_entry_def)


subsection \<open>max_4_fonts_per_family_name\<close>

lemma collect_family_names_Inr:
  "list_all2 (\<lambda>f ns. family_names_of f = Inr ns) ttFonts nss \<Longrightarrow>
   collect_family_names ttFonts acc = Inr (acc @ concat (map remdups nss))"
  by (induction ttFonts nss arbitrary: acc rule: list_all2_induct)
     (auto simp: family_names_of_def)

lemma count_list_remdups: "count_list (remdups ns) n = (if n \<in> set ns then 1 else 0)"
  by (induction ns) auto

lemma count_list_concat_remdups:
  "count_list (concat (map remdups nss)) n = fonts_sharing nss n"
  by (induction nss) (auto simp: fonts_sharing_def count_list_remdups)

lemma set_uniq: "set (uniq xs) = set xs"
  by (induction xs) auto

lemma distinct_uniq: "distinct (uniq xs)"
  by (induction xs) auto

lemma fails_eq:
  "concat (map (\<lambda>(family_name, count).
      if count > 4 then [(FAIL, Message ''too-many'' [S family_name, I (int count)])] else [])
     (counter_items fam)) =
   map (\<lambda>k. (FAIL, Message ''too-many'' [S k, I (int (count_list fam k))]))
     (filter (\<lambda>k. count_list fam k > 4) (uniq fam))"
proof -
  have "concat (map (\<lambda>(family_name, count).
      if count > 4 then [(FAIL, Message ''too-many'' [S family_name, I (int count)])] else [])
     (map (\<lambda>k. (k, count_list fam k)) ks)) =
   map (\<lambda>k. (FAIL, Message ''too-many'' [S k, I (int (count_list fam k))]))
     (filter (\<lambda>k. count_list fam k > 4) ks)" for ks
    by (induction ks) auto
  then show ?thesis by (simp add: counter_items_def)
qed

lemma max_4_result:
  assumes "list_all2 (\<lambda>f ns. family_names_of f = Inr ns) ttFonts nss"
  shows "\<exists>fails. com_adobe_fonts_check_family_max_4_fonts_per_family_name ttFonts =
           (fails @ (if fails = []
                     then [(PASS, Text ''There were no more than 4 fonts per family name.'')]
                     else []), None) \<and>
         distinct fails \<and>
         set fails = {too_many nss n | n. fonts_sharing nss n > 4}"
proof -
  let ?fam = "concat (map remdups nss)"
  let ?fails = "map (\<lambda>k. (FAIL, Message ''too-many'' [S k, I (int (count_list ?fam k))]))
     (filter (\<lambda>k. count_list ?fam k > 4) (uniq ?fam))"
  have c: "collect_family_names ttFonts [] = Inr ?fam"
    using collect_family_names_Inr[OF assms, of "[]"] by simp
  have r: "com_adobe_fonts_check_family_max_4_fonts_per_family_name ttFonts =
           (?fails @ (if ?fails = []
                     then [(PASS, Text ''There were no more than 4 fonts per family name.'')]
                     else []), None)"
    unfolding com_adobe_fonts_check_family_max_4_fonts_per_family_name_def c fails_eq
    by (simp add: Let_def)
  have inj: "inj (\<lambda>k. (FAIL, Message ''too-many'' [S k, I (int (count_list ?fam k))]))"
    by (rule injI) simp
  have d: "distinct ?fails"
    by (simp add: distinct_map distinct_uniq inj_on_def)
  have mem: "k \<in> set ?fam" if "count_list ?fam k > 4" for k
    using that by (metis count_list_0_iff less_numeral_extra(3) not_less_zero)
  have s: "set ?fails = {too_many nss n | n. fonts_sharing nss n > 4}"
    using mem by (auto simp: set_uniq too_many_def count_list_concat_remdups
        simp del: set_concat)
  from r d s show ?thesis by blast
qed


lemma fonts_sharing_le: "fonts_sharing nss n \<le> length nss"
  by (simp add: fonts_sharing_def)






lemma read_family_names_Inr:
  "read_family_names ttFonts = Inr nss \<Longrightarrow>
   list_all2 (\<lambda>f ns. family_names_of f = Inr ns) ttFonts nss"
proof (induction ttFonts arbitrary: nss)
  case Nil
  then show ?case by simp
next
  case (Cons f fs)
  then show ?case
    by (cases "family_names_of f"; cases "read_family_names fs") auto
qed

lemma read_family_names_Inl:
  "read_family_names ttFonts = Inl e \<Longrightarrow> collect_family_names ttFonts acc = Inl e"
proof (induction ttFonts arbitrary: acc)
  case Nil
  then show ?case by simp
next
  case (Cons f fs)
  show ?case
  proof (cases "family_names_of f")
    case (Inl e')
    then show ?thesis using Cons.prems by (simp add: family_names_of_def)
  next
    case (Inr ns)
    then have "read_family_names fs = Inl e" using Cons.prems
      by (cases "read_family_names fs") auto
    then have "collect_family_names fs (acc @ remdups ns) = Inl e" by (rule Cons.IH)
    then show ?thesis using Inr by (simp add: family_names_of_def)
  qed
qed

text \<open>
  C10. The family names of one font are deduplicated before they are counted. Where
  reading the names of a font raises, the check ends with that exception. Otherwise, with
  \<open>nss\<close> the names read from each font, the count that a FAIL too-many reports for a name
  is the number of fonts that carry the name, however many records of one font repeat it:
  such a FAIL is yielded exactly for the names that more than 4 fonts carry, its count never
  exceeds the number of fonts, PASS is yielded exactly when no name is carried by more than
  4 fonts, and a list of at most 4 fonts (a single font with five duplicate records, say)
  yields only PASS.
\<close>

theorem max_4_dedup_within_font:
  "(case read_family_names ttFonts of
      Inl e \<Rightarrow>
        com_adobe_fonts_check_family_max_4_fonts_per_family_name ttFonts = ([], Some e)
    | Inr nss \<Rightarrow>
        ((FAIL, Message ''too-many'' [S n, I c])
           \<in> set (fst (com_adobe_fonts_check_family_max_4_fonts_per_family_name ttFonts))
         \<longleftrightarrow> c = int (fonts_sharing nss n) \<and> 4 < fonts_sharing nss n) \<and>
        fonts_sharing nss n \<le> length ttFonts \<and>
        (PASS \<in> set (statuses (com_adobe_fonts_check_family_max_4_fonts_per_family_name ttFonts))
         \<longleftrightarrow> (\<forall>m. fonts_sharing nss m \<le> 4)) \<and>
        (length ttFonts \<le> 4 \<longrightarrow>
           com_adobe_fonts_check_family_max_4_fonts_per_family_name ttFonts =
             ([(PASS, Text ''There were no more than 4 fonts per family name.'')], None)))"
proof (cases "read_family_names ttFonts")
  case (Inl e)
  then have "collect_family_names ttFonts [] = Inl e" by (rule read_family_names_Inl)
  then show ?thesis using Inl
    by (simp add: com_adobe_fonts_check_family_max_4_fonts_per_family_name_def)
next
  case (Inr nss)
  let ?chk = "com_adobe_fonts_check_family_max_4_fonts_per_family_name ttFonts"
  have la: "list_all2 (\<lambda>f ns. family_names_of f = Inr ns) ttFonts nss"
    using Inr by (rule read_family_names_Inr)
  have len: "length nss = length ttFonts"
    using la by (simp add: list_all2_lengthD)
  obtain fails where r: "?chk =
           (fails @ (if fails = []
                     then [(PASS, Text ''There were no more than 4 fonts per family name.'')]
                     else []), None)"
    and s: "set fails = {too_many nss m | m. fonts_sharing nss m > 4}"
    using max_4_result[OF la] by blast
  have fst_chk: "x \<in> set (fst ?chk) \<longleftrightarrow>
          x \<in> set fails \<or> (fails = [] \<and> x = (PASS, Text ''There were no more than 4 fonts per family name.''))"
    for x
    using r by auto
  have c1: "(FAIL, Message ''too-many'' [S n, I c]) \<in> set (fst ?chk)
         \<longleftrightarrow> c = int (fonts_sharing nss n) \<and> 4 < fonts_sharing nss n"
  proof -
    have "(FAIL, Message ''too-many'' [S n, I c]) \<in> set (fst ?chk) \<longleftrightarrow>
            (FAIL, Message ''too-many'' [S n, I c]) \<in> set fails"
      unfolding fst_chk by simp
    also have "\<dots> \<longleftrightarrow> (\<exists>m. (FAIL, Message ''too-many'' [S n, I c]) = too_many nss m \<and>
                             fonts_sharing nss m > 4)"
      unfolding s by blast
    also have "\<dots> \<longleftrightarrow> c = int (fonts_sharing nss n) \<and> 4 < fonts_sharing nss n"
      by (auto simp: too_many_def)
    finally show ?thesis .
  qed
  have c2: "fonts_sharing nss n \<le> length ttFonts"
    using fonts_sharing_le[of nss n] len by simp
  have nopass: "PASS \<notin> fst ` set fails"
    using s by (auto simp: too_many_def)
  have empty_iff: "fails = [] \<longleftrightarrow> (\<forall>m. fonts_sharing nss m \<le> 4)"
  proof -
    have "fails = [] \<longleftrightarrow> set fails = {}" by simp
    also have "\<dots> \<longleftrightarrow> (\<forall>m. \<not> fonts_sharing nss m > 4)" unfolding s by blast
    finally show ?thesis by (simp add: not_less)
  qed
  have c3: "PASS \<in> set (statuses ?chk) \<longleftrightarrow> (\<forall>m. fonts_sharing nss m \<le> 4)"
  proof (cases "fails = []")
    case True
    then show ?thesis using r empty_iff by (simp add: statuses_def)
  next
    case False
    then have "?chk = (fails, None)" using r by simp
    then have "set (statuses ?chk) = fst ` set fails" by (simp add: statuses_def)
    moreover have "\<not> (\<forall>m. fonts_sharing nss m \<le> 4)" using False empty_iff by blast
    ultimately show ?thesis using nopass by blast
  qed
  have c4: "?chk = ([(PASS, Text ''There were no more than 4 fonts per family name.'')], None)"
    if "length ttFonts \<le> 4"
  proof -
    have "fonts_sharing nss m \<le> 4" for m
      using fonts_sharing_le[of nss m] len that by simp
    then have "fails = []" using empty_iff by blast
    then show ?thesis using r by simp
  qed
  from c1 c2 c3 c4 show ?thesis using Inr by simp
qed

theorem max_4_dedup_within_font_witness:
  "com_adobe_fonts_check_family_max_4_fonts_per_family_name [five_records_font] =
     ([(PASS, Text ''There were no more than 4 fonts per family name.'')], None) \<and>
   (FAIL, Message ''too-many'' [S (ustr ''ExampleSans''), I 5])
     \<in> set (fst (com_adobe_fonts_check_family_max_4_fonts_per_family_name
                   [two_records_font, two_records_font, two_records_font, two_records_font,
                    two_records_font])) \<and>
   (FAIL, Message ''too-many'' [S (ustr ''ExampleSans''), I 10])
     \<notin> set (fst (com_adobe_fonts_check_family_max_4_fonts_per_family_name
                   [two_records_font, two_records_font, two_records_font, two_records_font,
                    two_records_font]))"
proof -
  have f5: "family_names_of five_records_font =
              Inr [ustr ''ExampleSans'', ustr ''ExampleSans'', ustr ''ExampleSans'',
                   ustr ''ExampleSans'', ustr ''ExampleSans'']"
    by (simp add: family_names_of_def five_records_font_def name_font_def empty_font_def
          win_name_def get_name_entry_strings_def get_name_entries_def bind_err_def
          FONT_FAMILY_NAME_def WINDOWS_def UNICODE_BMP_def ENGLISH_USA_def eval_nat_numeral)
  have f2: "family_names_of two_records_font = Inr [ustr ''ExampleSans'', ustr ''ExampleSans'']"
    by (simp add: family_names_of_def two_records_font_def name_font_def empty_font_def
          win_name_def get_name_entry_strings_def get_name_entries_def bind_err_def
          FONT_FAMILY_NAME_def WINDOWS_def UNICODE_BMP_def ENGLISH_USA_def)
  have a: "com_adobe_fonts_check_family_max_4_fonts_per_family_name [five_records_font] =
     ([(PASS, Text ''There were no more than 4 fonts per family name.'')], None)"
    using max_4_dedup_within_font[of "[five_records_font]"]
    by (simp add: f5)
  have b: "(FAIL, Message ''too-many'' [S (ustr ''ExampleSans''), I c])
     \<in> set (fst (com_adobe_fonts_check_family_max_4_fonts_per_family_name
                   [two_records_font, two_records_font, two_records_font, two_records_font,
                    two_records_font])) \<longleftrightarrow> c = 5" for c
    using max_4_dedup_within_font[of "[two_records_font, two_records_font, two_records_font,
              two_records_font, two_records_font]" "ustr ''ExampleSans''" c]
    by (simp add: f2 fonts_sharing_def)
  from a b[of 5] b[of 10] show ?thesis by simp
qed

subsection \<open>match_familyname_fullfont\<close>

lemma mf_add_mf_add: "mf_add rs2 c2 (mf_add rs1 c1 st) = mf_add (rs1 @ rs2) (c1 \<or> c2) st"
  by (auto simp: mf_add_def)

lemma mf_add_Nil: "mf_add [] False st = st"
  by (simp add: mf_add_def)

lemma fold_mf_add:
  assumes "\<And>x st. f x st = mf_add (v x) (c x) st"
  shows "fold f xs st = mf_add (concat (map v xs)) (list_ex c xs) st"
proof (induction xs arbitrary: st)
  case Nil
  then show ?case by (simp add: mf_add_Nil)
next
  case (Cons x xs)
  then show ?case by (simp add: assms mf_add_mf_add)
qed

lemma family_step_add:
  "family_step names full p e l nid st =
     mf_add (family_verdict names full p e l nid) (getName names nid p e l \<noteq> None) st"
  by (simp add: family_step_def family_verdict_def pair_verdict_def mf_add_def decode_fail_def
        mismatch_def Let_def split: option.splits)

lemma lang_step_add:
  "lang_step names p e l st = mf_add (lang_verdict names p e l) (lang_present names p e l) st"
proof (cases "getName names FULL_FONT_NAME p e l")
  case None
  then show ?thesis
    by (simp add: lang_step_def lang_verdict_def lang_present_def mf_add_Nil)
next
  case (Some full)
  have "fold (family_step names full p e l) family_ids st =
          mf_add (concat (map (family_verdict names full p e l) family_ids))
            (list_ex (\<lambda>nid. getName names nid p e l \<noteq> None) family_ids) st"
    by (rule fold_mf_add) (rule family_step_add)
  then show ?thesis using Some
    by (simp add: lang_step_def lang_verdict_def lang_present_def family_ids_def)
qed

lemma match_loops_add:
  "match_loops names st = mf_add (all_verdicts names) (any_present names) st"
proof -
  let ?Ls = "sorted_list_of_set (set (map langID names))"
  let ?Es = "sorted_list_of_set (set (map platEncID names))"
  let ?Ps = "sorted_list_of_set (set (map platformID names))"
  have l: "fold (\<lambda>lang_id. lang_step names p e lang_id) ?Ls s =
             mf_add (concat (map (\<lambda>l. lang_verdict names p e l) ?Ls))
               (list_ex (\<lambda>l. lang_present names p e l) ?Ls) s" for p e s
    by (rule fold_mf_add) (rule lang_step_add)
  have e: "fold (\<lambda>enc_id. fold (\<lambda>lang_id. lang_step names p enc_id lang_id) ?Ls) ?Es s =
             mf_add (concat (map (\<lambda>e. concat (map (\<lambda>l. lang_verdict names p e l) ?Ls)) ?Es))
               (list_ex (\<lambda>e. list_ex (\<lambda>l. lang_present names p e l) ?Ls) ?Es) s" for p s
    by (rule fold_mf_add) (rule l)
  have p: "fold (\<lambda>plat_id. fold (\<lambda>enc_id. fold (\<lambda>lang_id. lang_step names plat_id enc_id lang_id) ?Ls) ?Es) ?Ps s =
             mf_add (concat (map (\<lambda>p. concat (map (\<lambda>e. concat (map (\<lambda>l. lang_verdict names p e l) ?Ls)) ?Es)) ?Ps))
               (list_ex (\<lambda>p. list_ex (\<lambda>e. list_ex (\<lambda>l. lang_present names p e l) ?Ls) ?Es) ?Ps) s" for s
    by (rule fold_mf_add) (rule e)
  show ?thesis
    unfolding match_loops_def Let_def all_verdicts_def any_present_def by (rule p)
qed

lemma getName_ids:
  assumes "getName names nid p e l = Some r"
  shows "r \<in> set names \<and> nameID r = nid \<and> platformID r = p \<and> platEncID r = e \<and> langID r = l"
proof -
  from assms obtain i where "i < length names" and "r = names ! i"
    and "nameID (names ! i) = nid \<and> platformID (names ! i) = p \<and> platEncID (names ! i) = e \<and>
         langID (names ! i) = l"
    unfolding getName_def find_Some_iff by blast
  then show ?thesis by auto
qed

lemma set_sorted_ids [simp]: "set (sorted_list_of_set (set (map f (names :: name_record list)))) = f ` set names"
  by simp

lemma lang_verdict_ids:
  assumes "r \<in> set (lang_verdict names p e l)"
  shows "p \<in> platformID ` set names \<and> e \<in> platEncID ` set names \<and> l \<in> langID ` set names"
proof -
  from assms obtain full where "getName names FULL_FONT_NAME p e l = Some full"
    by (cases "getName names FULL_FONT_NAME p e l") (auto simp: lang_verdict_def)
  from getName_ids[OF this] show ?thesis by blast
qed

lemma lang_present_ids:
  assumes "lang_present names p e l"
  shows "p \<in> platformID ` set names \<and> e \<in> platEncID ` set names \<and> l \<in> langID ` set names"
proof -
  from assms obtain full where "getName names FULL_FONT_NAME p e l = Some full"
    by (auto simp: lang_present_def)
  from getName_ids[OF this] show ?thesis by blast
qed

lemma in_all_verdicts_iff:
  "r \<in> set (all_verdicts names) \<longleftrightarrow> (\<exists>p e l. r \<in> set (lang_verdict names p e l))"
proof
  assume "r \<in> set (all_verdicts names)"
  then show "\<exists>p e l. r \<in> set (lang_verdict names p e l)"
    by (auto simp: all_verdicts_def)
next
  assume "\<exists>p e l. r \<in> set (lang_verdict names p e l)"
  then obtain p e l where r: "r \<in> set (lang_verdict names p e l)" by blast
  from lang_verdict_ids[OF r]
  have "p \<in> platformID ` set names" "e \<in> platEncID ` set names" "l \<in> langID ` set names"
    by blast+
  with r show "r \<in> set (all_verdicts names)"
    by (auto simp: all_verdicts_def)
qed

lemma any_present_iff: "any_present names \<longleftrightarrow> (\<exists>p e l. lang_present names p e l)"
proof
  assume "any_present names"
  then show "\<exists>p e l. lang_present names p e l"
    unfolding any_present_def list_ex_iff by blast
next
  assume "\<exists>p e l. lang_present names p e l"
  then obtain p e l where r: "lang_present names p e l" by blast
  from lang_present_ids[OF r]
  have "p \<in> platformID ` set names" "e \<in> platEncID ` set names" "l \<in> langID ` set names"
    by blast+
  with r show "any_present names"
    unfolding any_present_def list_ex_iff set_sorted_ids by blast
qed

lemma in_lang_verdict_iff:
  "r \<in> set (lang_verdict names p e l) \<longleftrightarrow>
     (\<exists>full family nid. nid \<in> set family_ids \<and> getName names FULL_FONT_NAME p e l = Some full \<and>
        getName names nid p e l = Some family \<and> r \<in> set (pair_verdict full family p e l nid))"
proof (cases "getName names FULL_FONT_NAME p e l")
  case None
  then show ?thesis by (simp add: lang_verdict_def)
next
  case (Some full)
  have "r \<in> set (family_verdict names full p e l nid) \<longleftrightarrow>
          (\<exists>family. getName names nid p e l = Some family \<and>
             r \<in> set (pair_verdict full family p e l nid))" for nid
    by (cases "getName names nid p e l") (auto simp: family_verdict_def)
  then show ?thesis using Some by (auto simp: lang_verdict_def)
qed

lemma lang_present_iff:
  "lang_present names p e l \<longleftrightarrow>
     (\<exists>full family nid. nid \<in> set family_ids \<and> getName names FULL_FONT_NAME p e l = Some full \<and>
        getName names nid p e l = Some family)"
  by (auto simp: lang_present_def list_ex_iff)

lemma match_result:
  assumes "t_name ttFont = Some names"
  shows "com_google_fonts_check_name_match_familyname_fullfont ttFont =
           (all_verdicts names @
              (if \<not> any_present names then [missing_font_names]
               else if all_verdicts names = []
                    then [(PASS, Text ''Full font name begins with the font family name.'')]
                    else []), None)"
  by (simp add: com_google_fonts_check_name_match_familyname_fullfont_def assms
        match_loops_add mf_add_def missing_font_names_def)

lemma pair_verdict_FAIL: "r \<in> set (pair_verdict full family p e l nid) \<Longrightarrow> fst r = FAIL"
  by (auto simp: pair_verdict_def decode_fail_def mismatch_def split: option.splits if_splits)

lemma all_verdicts_FAIL: "r \<in> set (all_verdicts names) \<Longrightarrow> fst r = FAIL"
  unfolding in_all_verdicts_iff in_lang_verdict_iff using pair_verdict_FAIL by blast

lemma pair_verdict_Nil_iff:
  "pair_verdict full family p e l nid = [] \<longleftrightarrow>
     (\<exists>full_name family_name. toUnicode full = Some full_name \<and>
        toUnicode family = Some family_name \<and> startswith full_name family_name)"
  by (auto simp: pair_verdict_def split: option.splits)

lemma all_verdicts_Nil_iff:
  "all_verdicts names = [] \<longleftrightarrow>
     (\<forall>p e l nid full family. nid \<in> set family_ids \<and>
         getName names FULL_FONT_NAME p e l = Some full \<and> getName names nid p e l = Some family \<longrightarrow>
         (\<exists>full_name family_name. toUnicode full = Some full_name \<and>
            toUnicode family = Some family_name \<and> startswith full_name family_name))"
proof -
  have "all_verdicts names = [] \<longleftrightarrow> (\<forall>r. r \<notin> set (all_verdicts names))"
    by (cases "all_verdicts names") auto
  also have "\<dots> \<longleftrightarrow> (\<forall>p e l nid full family. nid \<in> set family_ids \<and>
         getName names FULL_FONT_NAME p e l = Some full \<and> getName names nid p e l = Some family \<longrightarrow>
         pair_verdict full family p e l nid = [])"
  proof -
    have "(\<forall>r. r \<notin> set xs) \<longleftrightarrow> xs = []" for xs :: "result list"
      by (cases xs) auto
    then show ?thesis
      unfolding in_all_verdicts_iff in_lang_verdict_iff by (metis (no_types, lifting))
  qed
  finally show ?thesis unfolding pair_verdict_Nil_iff .
qed

lemma mismatch_in_pair_verdict_D:
  assumes "mismatch fn fa p' e' l' nid' \<in> set (pair_verdict full family p e l nid)"
  shows "toUnicode full = Some fn \<and> toUnicode family = Some fa \<and> p' = p \<and> e' = e \<and> l' = l \<and>
         nid' = nid \<and> \<not> startswith fn fa"
  using assms
  by (auto simp: pair_verdict_def mismatch_def decode_fail_def split: option.splits if_splits)

lemma str_nat_1: "str_nat (Suc 0) = ''1''"
  by (simp add: str_nat.simps)

lemma str_nat_16: "str_nat 16 = ''16''"
  by (simp add: str_nat.simps)

lemma match_example_pass:
  "com_google_fonts_check_name_match_familyname_fullfont (example_font ''ExampleSans'' ''ExampleSans Bold'') =
     ([(PASS, Text ''Full font name begins with the font family name.'')], None)"
  by (simp add: com_google_fonts_check_name_match_familyname_fullfont_def example_font_def
        match_loops_def lang_step_def family_step_def getName_def startswith_def ustr_def
        FULL_FONT_NAME_def FONT_FAMILY_NAME_def TYPOGRAPHIC_FAMILY_NAME_def WWS_FAMILY_NAME_def)

lemma match_example_fail:
  "com_google_fonts_check_name_match_familyname_fullfont (example_font ''ExampleSans'' ''Bold ExampleSans'') =
     ([(FAIL, Message ''mismatch-font-names'' [S (ustr ''Bold ExampleSans''), S (ustr ''ExampleSans''), I 3, I 1, I 0x409, I 1])], None)"
  by (simp add: com_google_fonts_check_name_match_familyname_fullfont_def example_font_def
        match_loops_def lang_step_def family_step_def getName_def startswith_def ustr_def
        FULL_FONT_NAME_def FONT_FAMILY_NAME_def TYPOGRAPHIC_FAMILY_NAME_def WWS_FAMILY_NAME_def)

lemma match_example_undecodable:
  "com_google_fonts_check_name_match_familyname_fullfont undecodable_font =
     ([(FAIL, Message ''cannot-decode-nameid-1'' [I 3, I 1, I 0x409, I 1])], None)"
  by (simp add: com_google_fonts_check_name_match_familyname_fullfont_def undecodable_font_def
        match_loops_def lang_step_def family_step_def getName_def startswith_def ustr_def str_nat_1
        FULL_FONT_NAME_def FONT_FAMILY_NAME_def TYPOGRAPHIC_FAMILY_NAME_def WWS_FAMILY_NAME_def)

text \<open>
  C6, as the code has it. For a font with a name table the check ends without an
  exception. It yields PASS exactly when at least one combination of platformID, encodingID
  and languageID has both a Full Name record (nameID 4) and a family name record (nameID 1,
  16 or 21), and for every such pair both records decode and the Full Name string starts
  with the Family Name string. For a pair whose records both decode it yields FAIL
  mismatch-font-names exactly when the Full Name does not start with the Family Name. When
  no pair exists it yields only FAIL missing-font-names. Full Name "ExampleSans Bold" with
  Family Name "ExampleSans" gives PASS, and "Bold ExampleSans" with "ExampleSans" gives
  FAIL mismatch-font-names.
\<close>

theorem match_familyname_fullfont_verdicts:
  assumes "t_name ttFont = Some names"
  shows
    "snd (com_google_fonts_check_name_match_familyname_fullfont ttFont) = None \<and>
     (PASS \<in> set (statuses (com_google_fonts_check_name_match_familyname_fullfont ttFont)) \<longleftrightarrow>
        (\<exists>p e l nid full family. nid \<in> set family_ids \<and>
           getName names FULL_FONT_NAME p e l = Some full \<and> getName names nid p e l = Some family) \<and>
        (\<forall>p e l nid full family. nid \<in> set family_ids \<and>
           getName names FULL_FONT_NAME p e l = Some full \<and> getName names nid p e l = Some family \<longrightarrow>
           (\<exists>full_name family_name. toUnicode full = Some full_name \<and>
              toUnicode family = Some family_name \<and> startswith full_name family_name))) \<and>
     (nid \<in> set family_ids \<and> getName names FULL_FONT_NAME p e l = Some full \<and>
      getName names nid p e l = Some family \<and> toUnicode full = Some full_name \<and>
      toUnicode family = Some family_name \<longrightarrow>
        (mismatch full_name family_name p e l nid
           \<in> set (fst (com_google_fonts_check_name_match_familyname_fullfont ttFont))
         \<longleftrightarrow> \<not> startswith full_name family_name)) \<and>
     ((\<forall>p e l nid. nid \<in> set family_ids \<longrightarrow>
          getName names FULL_FONT_NAME p e l = None \<or> getName names nid p e l = None) \<longrightarrow>
        com_google_fonts_check_name_match_familyname_fullfont ttFont =
          ([missing_font_names], None)) \<and>
     com_google_fonts_check_name_match_familyname_fullfont
         (example_font ''ExampleSans'' ''ExampleSans Bold'') =
       ([(PASS, Text ''Full font name begins with the font family name.'')], None) \<and>
     com_google_fonts_check_name_match_familyname_fullfont
         (example_font ''ExampleSans'' ''Bold ExampleSans'') =
       ([mismatch (ustr ''Bold ExampleSans'') (ustr ''ExampleSans'') 3 1 0x409 1], None)"
proof -
  let ?chk = "com_google_fonts_check_name_match_familyname_fullfont ttFont"
  let ?final = "(if \<not> any_present names then [missing_font_names]
               else if all_verdicts names = []
                    then [(PASS, Text ''Full font name begins with the font family name.'')]
                    else [])"
  have r: "?chk = (all_verdicts names @ ?final, None)"
    by (rule match_result[OF assms])
  have c1: "snd ?chk = None" using r by simp
  have pres: "any_present names \<longleftrightarrow>
        (\<exists>p e l nid full family. nid \<in> set family_ids \<and>
           getName names FULL_FONT_NAME p e l = Some full \<and> getName names nid p e l = Some family)"
    unfolding any_present_iff lang_present_iff by blast
  have nopass: "PASS \<notin> fst ` set (all_verdicts names)"
    using all_verdicts_FAIL by force
  have "PASS \<in> set (statuses ?chk) \<longleftrightarrow> any_present names \<and> all_verdicts names = []"
  proof (cases "any_present names")
    case False
    then show ?thesis using r nopass by (simp add: statuses_def missing_font_names_def)
  next
    case True
    show ?thesis
    proof (cases "all_verdicts names = []")
      case True
      then show ?thesis using r \<open>any_present names\<close> by (simp add: statuses_def)
    next
      case False
      then have "?chk = (all_verdicts names, None)" using r \<open>any_present names\<close> by simp
      then have "set (statuses ?chk) = fst ` set (all_verdicts names)"
        by (simp add: statuses_def)
      then show ?thesis using False nopass by simp
    qed
  qed
  then have c2: "PASS \<in> set (statuses ?chk) \<longleftrightarrow>
        (\<exists>p e l nid full family. nid \<in> set family_ids \<and>
           getName names FULL_FONT_NAME p e l = Some full \<and> getName names nid p e l = Some family) \<and>
        (\<forall>p e l nid full family. nid \<in> set family_ids \<and>
           getName names FULL_FONT_NAME p e l = Some full \<and> getName names nid p e l = Some family \<longrightarrow>
           (\<exists>full_name family_name. toUnicode full = Some full_name \<and>
              toUnicode family = Some family_name \<and> startswith full_name family_name))"
    unfolding pres all_verdicts_Nil_iff .
  have c3: "mismatch full_name family_name p e l nid \<in> set (fst ?chk)
         \<longleftrightarrow> \<not> startswith full_name family_name"
    if P: "nid \<in> set family_ids" "getName names FULL_FONT_NAME p e l = Some full"
      "getName names nid p e l = Some family"
      and d: "toUnicode full = Some full_name" "toUnicode family = Some family_name"
  proof
    assume "mismatch full_name family_name p e l nid \<in> set (fst ?chk)"
    then have "mismatch full_name family_name p e l nid \<in> set (all_verdicts names)"
      using r by (auto simp: mismatch_def missing_font_names_def split: if_splits)
    then obtain p' e' l' full' family' nid' where
      "mismatch full_name family_name p e l nid \<in> set (pair_verdict full' family' p' e' l' nid')"
      unfolding in_all_verdicts_iff in_lang_verdict_iff by blast
    from mismatch_in_pair_verdict_D[OF this] show "\<not> startswith full_name family_name" by blast
  next
    assume "\<not> startswith full_name family_name"
    then have "mismatch full_name family_name p e l nid \<in> set (pair_verdict full family p e l nid)"
      using d by (simp add: pair_verdict_def)
    then have "mismatch full_name family_name p e l nid \<in> set (all_verdicts names)"
      unfolding in_all_verdicts_iff in_lang_verdict_iff using P by blast
    then show "mismatch full_name family_name p e l nid \<in> set (fst ?chk)"
      using r by simp
  qed
  have c4: "?chk = ([missing_font_names], None)"
    if none: "\<forall>p e l nid. nid \<in> set family_ids \<longrightarrow>
          getName names FULL_FONT_NAME p e l = None \<or> getName names nid p e l = None"
  proof -
    have no: "\<not> (nid \<in> set family_ids \<and> getName names FULL_FONT_NAME p e l = Some full \<and>
                  getName names nid p e l = Some family)" for p e l nid full family
    proof
      assume a: "nid \<in> set family_ids \<and> getName names FULL_FONT_NAME p e l = Some full \<and>
                  getName names nid p e l = Some family"
      from none[rule_format, of nid p e l] a show False by auto
    qed
    have np: "\<not> any_present names" unfolding pres using no by blast
    have "\<forall>r. r \<notin> set (all_verdicts names)"
      unfolding in_all_verdicts_iff in_lang_verdict_iff using no by blast
    then have "all_verdicts names = []" by (cases "all_verdicts names") auto
    then show ?thesis using r np by simp
  qed
  have c5: "com_google_fonts_check_name_match_familyname_fullfont
         (example_font ''ExampleSans'' ''Bold ExampleSans'') =
       ([mismatch (ustr ''Bold ExampleSans'') (ustr ''ExampleSans'') 3 1 0x409 1], None)"
    using match_example_fail by (simp add: mismatch_def)
  from c1 c2 c3 c4 match_example_pass c5 show ?thesis by blast
qed

theorem match_familyname_fullfont_verdicts_witness:
  "PASS \<in> set (statuses (com_google_fonts_check_name_match_familyname_fullfont
                          (example_font ''ExampleSans'' ''ExampleSans Bold''))) \<and>
   mismatch (ustr ''Bold ExampleSans'') (ustr ''ExampleSans'') 3 1 0x409 1
     \<in> set (fst (com_google_fonts_check_name_match_familyname_fullfont
                   (example_font ''ExampleSans'' ''Bold ExampleSans'')))"
proof -
  let ?r1 = "\<lparr>platformID = 3, platEncID = 1, langID = 0x409, nameID = 1,
              toUnicode = Some (ustr ''ExampleSans'')\<rparr>"
  let ?good = "\<lparr>platformID = 3, platEncID = 1, langID = 0x409, nameID = 4,
                toUnicode = Some (ustr ''ExampleSans Bold'')\<rparr>"
  let ?bad = "\<lparr>platformID = 3, platEncID = 1, langID = 0x409, nameID = 4,
               toUnicode = Some (ustr ''Bold ExampleSans'')\<rparr>"
  have tn: "t_name (example_font ''ExampleSans'' ''ExampleSans Bold'') = Some [?r1, ?good]"
    by (simp add: example_font_def)
  have ex: "\<exists>p e l nid full family. nid \<in> set family_ids \<and>
           getName [?r1, ?good] FULL_FONT_NAME p e l = Some full \<and>
           getName [?r1, ?good] nid p e l = Some family"
    by (rule exI[of _ 3], rule exI[of _ 1], rule exI[of _ "0x409"], rule exI[of _ 1])
       (simp add: getName_def family_ids_def FULL_FONT_NAME_def FONT_FAMILY_NAME_def)
  have sw: "startswith (ustr ''ExampleSans Bold'') (ustr ''ExampleSans'')"
    by (simp add: startswith_def ustr_def)
  have al: "\<forall>p e l nid full family. nid \<in> set family_ids \<and>
           getName [?r1, ?good] FULL_FONT_NAME p e l = Some full \<and>
           getName [?r1, ?good] nid p e l = Some family \<longrightarrow>
           (\<exists>full_name family_name. toUnicode full = Some full_name \<and>
              toUnicode family = Some family_name \<and> startswith full_name family_name)"
    using sw
    by (auto simp: getName_def family_ids_def FULL_FONT_NAME_def FONT_FAMILY_NAME_def
          TYPOGRAPHIC_FAMILY_NAME_def WWS_FAMILY_NAME_def split: if_splits)
  have a: "PASS \<in> set (statuses (com_google_fonts_check_name_match_familyname_fullfont
                          (example_font ''ExampleSans'' ''ExampleSans Bold'')))"
    using match_familyname_fullfont_verdicts[OF tn, THEN conjunct2, THEN conjunct1] ex al
    by blast
  have b: "mismatch (ustr ''Bold ExampleSans'') (ustr ''ExampleSans'') 3 1 0x409 1
     \<in> set (fst (com_google_fonts_check_name_match_familyname_fullfont
                   (example_font ''ExampleSans'' ''Bold ExampleSans'')))"
    using match_familyname_fullfont_verdicts[where ttFont = "example_font ''ExampleSans'' ''Bold ExampleSans''"
            and names = "[?r1, ?bad]" and nid = 1 and p = 3 and e = 1 and l = "0x409"
            and full = ?bad and family = ?r1 and full_name = "ustr ''Bold ExampleSans''"
            and family_name = "ustr ''ExampleSans''"]
    by (simp add: example_font_def getName_def family_ids_def FULL_FONT_NAME_def
          FONT_FAMILY_NAME_def startswith_def ustr_def)
  from a b show ?thesis by simp
qed

text \<open>
  Two fonts without a PASS although no comparison of decoded names fails. In the first
  the Full Name starts with the Family Name of nameID 1, and the record of nameID 16 cannot
  be decoded; the second has no name record at all.
\<close>

theorem match_familyname_no_pass_counterexample:
  "com_google_fonts_check_name_match_familyname_fullfont partly_undecodable_font =
     ([(FAIL, Message ''cannot-decode-nameid-16'' [I 3, I 1, I 0x409, I 16])], None) \<and>
   com_google_fonts_check_name_match_familyname_fullfont (empty_font\<lparr>t_name := Some []\<rparr>) =
     ([(FAIL, Message ''missing-font-names'' [I 4, I 1, I 16, I 21])], None)"
  by (simp add: com_google_fonts_check_name_match_familyname_fullfont_def partly_undecodable_font_def
        empty_font_def
        match_loops_def lang_step_def family_step_def getName_def startswith_def ustr_def str_nat_16
        FULL_FONT_NAME_def FONT_FAMILY_NAME_def TYPOGRAPHIC_FAMILY_NAME_def WWS_FAMILY_NAME_def)


subsection \<open>Decode failures\<close>

text \<open>
  C2, as the code has it. nameid_1_win_english never lets UnicodeDecodeError escape: when
  its record cannot be decoded it returns ERROR nameid-1-decoding-error.
  match_familyname_fullfont never lets it escape either: for a compared pair whose family
  name record, or else whose Full Name record, cannot be decoded it yields FAIL
  cannot-decode-nameid-N with the nameID of that record, and no PASS.
\<close>

theorem decode_failures_caught:
  "com_adobe_fonts_check_nameid_1_win_english ttFont h \<noteq> Inl UnicodeDecodeError \<and>
   (t_name ttFont = Some names \<and> getName names 1 3 1 0x409 = Some r \<and> toUnicode r = None \<longrightarrow>
      com_adobe_fonts_check_nameid_1_win_english ttFont True =
        Inr (ERROR, Message ''nameid-1-decoding-error'' [])) \<and>
   snd (com_google_fonts_check_name_match_familyname_fullfont ttFont) \<noteq> Some UnicodeDecodeError \<and>
   (t_name ttFont = Some names \<and> nid \<in> set family_ids \<and>
    getName names FULL_FONT_NAME p e l = Some full \<and> getName names nid p e l = Some family \<and>
    toUnicode family = None \<longrightarrow>
      decode_fail p e l nid
        \<in> set (fst (com_google_fonts_check_name_match_familyname_fullfont ttFont)) \<and>
      PASS \<notin> set (statuses (com_google_fonts_check_name_match_familyname_fullfont ttFont))) \<and>
   (t_name ttFont = Some names \<and> nid \<in> set family_ids \<and>
    getName names FULL_FONT_NAME p e l = Some full \<and> getName names nid p e l = Some family \<and>
    toUnicode family \<noteq> None \<and> toUnicode full = None \<longrightarrow>
      decode_fail p e l FULL_FONT_NAME
        \<in> set (fst (com_google_fonts_check_name_match_familyname_fullfont ttFont)) \<and>
      PASS \<notin> set (statuses (com_google_fonts_check_name_match_familyname_fullfont ttFont)))"
proof -
  let ?chk = "com_google_fonts_check_name_match_familyname_fullfont ttFont"
  have c1: "com_adobe_fonts_check_nameid_1_win_english ttFont h \<noteq> Inl UnicodeDecodeError"
    by (simp add: com_adobe_fonts_check_nameid_1_win_english_def split: option.splits)
  have c2: "com_adobe_fonts_check_nameid_1_win_english ttFont True =
        Inr (ERROR, Message ''nameid-1-decoding-error'' [])"
    if "t_name ttFont = Some names" "getName names 1 3 1 0x409 = Some r" "toUnicode r = None"
    using that by (simp add: com_adobe_fonts_check_nameid_1_win_english_def)
  have c3: "snd ?chk \<noteq> Some UnicodeDecodeError"
    by (cases "t_name ttFont")
       (simp_all add: com_google_fonts_check_name_match_familyname_fullfont_def Let_def)
  have key: "v \<in> set (fst ?chk) \<and> PASS \<notin> set (statuses ?chk)"
    if tn: "t_name ttFont = Some names" and P: "nid \<in> set family_ids"
      "getName names FULL_FONT_NAME p e l = Some full" "getName names nid p e l = Some family"
      and v: "v \<in> set (pair_verdict full family p e l nid)" for v
  proof -
    have r: "?chk = (all_verdicts names @
              (if \<not> any_present names then [missing_font_names]
               else if all_verdicts names = []
                    then [(PASS, Text ''Full font name begins with the font family name.'')]
                    else []), None)"
      by (rule match_result[OF tn])
    have m: "v \<in> set (all_verdicts names)"
      unfolding in_all_verdicts_iff in_lang_verdict_iff using P v by blast
    then have ne: "all_verdicts names \<noteq> []" by auto
    have pr: "any_present names"
      unfolding any_present_iff lang_present_iff using P by blast
    have "?chk = (all_verdicts names, None)" using r ne pr by simp
    moreover have "PASS \<notin> fst ` set (all_verdicts names)"
      using all_verdicts_FAIL by force
    ultimately show ?thesis using m by (simp add: statuses_def)
  qed
  have c4: "decode_fail p e l nid \<in> set (fst ?chk) \<and> PASS \<notin> set (statuses ?chk)"
    if "t_name ttFont = Some names" "nid \<in> set family_ids"
      "getName names FULL_FONT_NAME p e l = Some full" "getName names nid p e l = Some family"
      "toUnicode family = None"
    using that by (intro key) (simp_all add: pair_verdict_def)
  have c5: "decode_fail p e l FULL_FONT_NAME \<in> set (fst ?chk) \<and> PASS \<notin> set (statuses ?chk)"
    if "t_name ttFont = Some names" "nid \<in> set family_ids"
      "getName names FULL_FONT_NAME p e l = Some full" "getName names nid p e l = Some family"
      "toUnicode family \<noteq> None" "toUnicode full = None"
    using that by (intro key) (auto simp: pair_verdict_def)
  from c1 c2 c3 c4 c5 show ?thesis by blast
qed

theorem decode_failures_caught_witness:
  "com_adobe_fonts_check_nameid_1_win_english undecodable_font True =
     Inr (ERROR, Message ''nameid-1-decoding-error'' []) \<and>
   decode_fail 3 1 0x409 1
     \<in> set (fst (com_google_fonts_check_name_match_familyname_fullfont undecodable_font)) \<and>
   PASS \<notin> set (statuses (com_google_fonts_check_name_match_familyname_fullfont undecodable_font))"
  using decode_failures_caught[where ttFont = undecodable_font and h = True
      and names = "[\<lparr>platformID = 3, platEncID = 1, langID = 0x409, nameID = 1, toUnicode = None\<rparr>,
                    \<lparr>platformID = 3, platEncID = 1, langID = 0x409, nameID = 4,
                      toUnicode = Some (ustr ''ExampleSans Bold'')\<rparr>]"
      and r = "\<lparr>platformID = 3, platEncID = 1, langID = 0x409, nameID = 1, toUnicode = None\<rparr>"
      and family = "\<lparr>platformID = 3, platEncID = 1, langID = 0x409, nameID = 1, toUnicode = None\<rparr>"
      and full = "\<lparr>platformID = 3, platEncID = 1, langID = 0x409, nameID = 4,
                      toUnicode = Some (ustr ''ExampleSans Bold'')\<rparr>"
      and nid = 1 and p = 3 and e = 1 and l = "0x409"]
  by (simp add: undecodable_font_def getName_def family_ids_def FULL_FONT_NAME_def
        FONT_FAMILY_NAME_def)

text \<open>
  An undecodable family name record is reported by match_familyname_fullfont with FAIL
  status, not ERROR.
\<close>

theorem decode_failure_fail_counterexample:
  "com_google_fonts_check_name_match_familyname_fullfont undecodable_font =
     ([(FAIL, Message ''cannot-decode-nameid-1'' [I 3, I 1, I 0x409, I 1])], None)"
  by (rule match_example_undecodable)


subsection \<open>Missing tables\<close>

text \<open>
  C3, as the code has it. The monospace check on a font that lacks one of glyf, hhea,
  hmtx, OS/2 and post ends without an exception and yields one FAIL lacks-TAG for each of
  these tables that is missing, and nothing else; nameid_1_win_english on a font without a
  name table returns FAIL name-table-not-found.
\<close>

theorem missing_tables_guarded:
  "(key \<in> set [''glyf'', ''hhea'', ''hmtx'', ''OS/2'', ''post''] \<and> \<not> has_table ttFont key \<longrightarrow>
      com_google_fonts_check_monospace ttFont stats =
        (map (\<lambda>k. (FAIL, Message (''lacks-'' @ k) [A k]))
           (filter (\<lambda>k. \<not> has_table ttFont k) [''glyf'', ''hhea'', ''hmtx'', ''OS/2'', ''post'']),
         None) \<and>
      (FAIL, Message (''lacks-'' @ key) [A key])
        \<in> set (fst (com_google_fonts_check_monospace ttFont stats))) \<and>
   (\<not> has_table ttFont ''name'' \<longrightarrow>
      com_adobe_fonts_check_nameid_1_win_english ttFont (has_name_table ttFont) =
        Inr (FAIL, Message ''name-table-not-found'' []))"
proof -
  let ?req = "[''glyf'', ''hhea'', ''hmtx'', ''OS/2'', ''post'']"
  have mm: "monospace_missing ttFont =
          map (\<lambda>k. (FAIL, Message (''lacks-'' @ k) [A k])) (filter (\<lambda>k. \<not> has_table ttFont k) ?req)"
  proof -
    have "concat (map (\<lambda>key. if \<not> has_table ttFont key
                         then [(FAIL, Message (''lacks-'' @ key) [A key])] else []) ks) =
          map (\<lambda>k. (FAIL, Message (''lacks-'' @ k) [A k])) (filter (\<lambda>k. \<not> has_table ttFont k) ks)"
      for ks
      by (induction ks) simp_all
    then show ?thesis unfolding monospace_missing_def .
  qed
  have a: "com_google_fonts_check_monospace ttFont stats =
        (map (\<lambda>k. (FAIL, Message (''lacks-'' @ k) [A k])) (filter (\<lambda>k. \<not> has_table ttFont k) ?req),
         None) \<and>
      (FAIL, Message (''lacks-'' @ key) [A key])
        \<in> set (fst (com_google_fonts_check_monospace ttFont stats))"
    if k: "key \<in> set ?req" and n: "\<not> has_table ttFont key"
  proof -
    have "key \<in> set (filter (\<lambda>k. \<not> has_table ttFont k) ?req)"
      unfolding set_filter using k n by blast
    then have m: "(FAIL, Message (''lacks-'' @ key) [A key]) \<in> set (monospace_missing ttFont)"
      unfolding mm by (simp only: set_map) (rule imageI)
    then have "monospace_missing ttFont \<noteq> []" by auto
    then have "com_google_fonts_check_monospace ttFont stats = (monospace_missing ttFont, None)"
      by (simp add: com_google_fonts_check_monospace_def Let_def)
    then show ?thesis using m mm by simp
  qed
  have b: "com_adobe_fonts_check_nameid_1_win_english ttFont (has_name_table ttFont) =
        Inr (FAIL, Message ''name-table-not-found'' [])" if "\<not> has_table ttFont ''name''"
    using that by (simp add: com_adobe_fonts_check_nameid_1_win_english_def has_name_table_def)
  from a b show ?thesis by blast
qed

theorem missing_tables_guarded_witness:
  "com_google_fonts_check_monospace (empty_font\<lparr>t_glyf := Some [], t_post := Some \<lparr>isFixedPitch = 0\<rparr>\<rparr>) no_stats =
     ([(FAIL, Message ''lacks-hhea'' [A ''hhea'']), (FAIL, Message ''lacks-hmtx'' [A ''hmtx'']),
       (FAIL, Message ''lacks-OS/2'' [A ''OS/2''])], None) \<and>
   com_adobe_fonts_check_nameid_1_win_english empty_font (has_name_table empty_font) =
     Inr (FAIL, Message ''name-table-not-found'' [])"
  using missing_tables_guarded[of "''hhea''" "empty_font\<lparr>t_glyf := Some [], t_post := Some \<lparr>isFixedPitch = 0\<rparr>\<rparr>" no_stats]
        missing_tables_guarded[of "''hhea''" empty_font no_stats]
  by (simp add: has_table_def empty_font_def)

text \<open>
  consistent_upm on a font without a head table and empty_records on a font without a
  name table raise KeyError and yield no result.
\<close>

theorem missing_table_raises_counterexample:
  "com_adobe_fonts_check_family_consistent_upm [empty_font] = ([], Some KeyError) \<and>
   com_adobe_fonts_check_name_empty_records empty_font = ([], Some KeyError)"
  by (simp add: com_adobe_fonts_check_family_consistent_upm_def
        com_adobe_fonts_check_name_empty_records_def empty_font_def)


subsection \<open>find_empty_letters\<close>

lemma find_empty_letters_loop_eq:
  assumes "readable_cmap ttFont items"
  shows "find_empty_letters_loop category (AH - MH) ttFont items n ok =
           (map empty_letter (empty_letter_entries category AH MH ttFont items) @
            (if ok \<and> blank_hangul_entries AH MH ttFont items = [] \<and>
                empty_letter_entries category AH MH ttFont items = []
             then [(PASS, Text ''No empty glyphs for letters found.'')]
             else if n + length (blank_hangul_entries AH MH ttFont items) \<noteq> 0
                  then [(WARN, Message ''empty-hangul-letter''
                           [I (int (n + length (blank_hangul_entries AH MH ttFont items)))])]
                  else []), None)"
  using assms
proof (induction items arbitrary: n ok)
  case Nil
  then show ?case
    by (simp add: empty_letter_entries_def blank_hangul_entries_def)
next
  case (Cons item items)
  obtain u g where item: "item = (u, g)" by (cases item)
  from Cons.prems have u: "u \<le> 0x10FFFF"
    and q: "quick_and_dirty_glyph_is_empty ttFont g = Inr True \<or>
            quick_and_dirty_glyph_is_empty ttFont g = Inr False"
    and rest: "readable_cmap ttFont items"
    by (auto simp: readable_cmap_def item)
  note IH = Cons.IH[OF rest]
  from q show ?case
  proof
    assume t: "quick_and_dirty_glyph_is_empty ttFont g = Inr True"
    then have ge: "glyph_is_empty ttFont g" by (simp add: glyph_is_empty_def)
    show ?case
    proof (cases "u \<in> AH - MH")
      case True
      then show ?thesis using u t ge
        by (auto simp: item IH empty_letter_entries_def blank_hangul_entries_def)
    next
      case False
      show ?thesis
      proof (cases "category u \<in> letter_categories \<and> u \<notin> invisible_letters")
        case True
        then show ?thesis using u t ge False
          by (auto simp: item IH empty_letter_entries_def blank_hangul_entries_def
                letter_categories_def invisible_letters_def empty_letter_def)
      next
        case nl: False
        then show ?thesis using u t ge False
          by (auto simp: item IH empty_letter_entries_def blank_hangul_entries_def
                letter_categories_def invisible_letters_def)
      qed
    qed
  next
    assume f: "quick_and_dirty_glyph_is_empty ttFont g = Inr False"
    then have ge: "\<not> glyph_is_empty ttFont g" by (simp add: glyph_is_empty_def)
    show ?case using u f ge
      by (auto simp: item IH empty_letter_entries_def blank_hangul_entries_def)
  qed
qed

text \<open>
  C5, as the code has it. On a font that has a cmap table with a Unicode subtable in
  which every codepoint is at most U+10FFFF and every glyph can be read (from the glyf
  table, or else from the first top dict of the CFF2 or CFF table), the check yields a FAIL
  empty-letter for each cmap entry whose glyph is heuristically empty and whose codepoint
  has the general category Ll, Lm, Lo, Lt or Lu, except the fillers U+115F, U+1160, U+3164
  and U+FFA0 and the codepoints of the Hangul blank-glyph set; the entries with an empty
  glyph in that set are counted in one WARN empty-hangul-letter instead; and a PASS is
  yielded exactly when there is neither.
\<close>

theorem find_empty_letters_results:
  assumes "t_cmap ttFont = Some c" and "bestCmap c = Some cmap"
      and "readable_cmap ttFont cmap"
  shows "com_adobe_fonts_check_find_empty_letters category ALL_HANGUL MODERN_HANGUL ttFont =
           (map empty_letter (empty_letter_entries category ALL_HANGUL MODERN_HANGUL ttFont cmap) @
            (if blank_hangul_entries ALL_HANGUL MODERN_HANGUL ttFont cmap = [] \<and>
                empty_letter_entries category ALL_HANGUL MODERN_HANGUL ttFont cmap = []
             then [(PASS, Text ''No empty glyphs for letters found.'')]
             else if blank_hangul_entries ALL_HANGUL MODERN_HANGUL ttFont cmap \<noteq> []
                  then [(WARN, Message ''empty-hangul-letter''
                           [I (int (length (blank_hangul_entries ALL_HANGUL MODERN_HANGUL
                                              ttFont cmap)))])]
                  else []), None)"
  using find_empty_letters_loop_eq[OF assms(3), of category ALL_HANGUL MODERN_HANGUL 0 True]
  by (simp add: com_adobe_fonts_check_find_empty_letters_def assms(1,2))

theorem find_empty_letters_results_witness:
  "com_adobe_fonts_check_find_empty_letters (\<lambda>u. ''Lo'') {0xAC00 ..< 0xD7A4} {0xAC01} glyf_font =
     ([(FAIL, Message ''empty-letter'' [I 0x61, A ''a'']),
       (WARN, Message ''empty-hangul-letter'' [I 1])], None)"
  using find_empty_letters_results[of glyf_font
      "\<lparr>bestCmap = Some [(0x61, ''a''), (0x62, ''b''), (0xAC00, ''a''), (0x115F, ''a'')]\<rparr>"
      "[(0x61, ''a''), (0x62, ''b''), (0xAC00, ''a''), (0x115F, ''a'')]"
      "\<lambda>u. ''Lo''" "{0xAC00 ..< 0xD7A4}" "{0xAC01}"]
  by (simp add: glyf_font_def readable_cmap_def quick_and_dirty_glyph_is_empty_def
        empty_letter_entries_def blank_hangul_entries_def glyph_is_empty_def empty_letter_def)

text \<open>
  Without a Unicode subtable, without a table that holds the outline of a mapped glyph,
  and without a cmap table the check raises and yields neither a FAIL nor a PASS.
\<close>

theorem find_empty_letters_raises_counterexample:
  "com_adobe_fonts_check_find_empty_letters (\<lambda>u. ''Ll'') {0xAC00 ..< 0xD7A4} {0xAC01}
     no_unicode_cmap_font = ([], Some AttributeError) \<and>
   com_adobe_fonts_check_find_empty_letters (\<lambda>u. ''Ll'') {0xAC00 ..< 0xD7A4} {0xAC01}
     no_outline_font = ([], Some KeyError) \<and>
   com_adobe_fonts_check_find_empty_letters (\<lambda>u. ''Ll'') {0xAC00 ..< 0xD7A4} {0xAC01}
     empty_font = ([], Some KeyError)"
  by (simp add: com_adobe_fonts_check_find_empty_letters_def no_unicode_cmap_font_def
        no_outline_font_def empty_font_def quick_and_dirty_glyph_is_empty_def bind_err_def)

end
